theory Spec2Isabelle
  imports Complex_Main "HOL-Library.Word"
begin

section \<open>JavaScript numbers\<close>

text \<open>
  The numbers of \<^verbatim>\<open>game.js\<close> that the fairness protocol computes with are integers
  (32-bit draws, array lengths, indices, parsed faces) or \<^verbatim>\<open>NaN\<close> (the remainder by
  zero, \<^verbatim>\<open>parseInt\<close> of a token without digits). They are modelled by \<open>jsnum\<close>: an
  exact integer or \<open>NaN\<close>. A double represents every integer of magnitude below \<open>2^53\<close>
  exactly, and the operations below are exact in that range.
\<close>

datatype jsnum = Num int | NaN

text \<open>\<^verbatim>\<open>a + b\<close> and \<^verbatim>\<open>a - b\<close>: \<^verbatim>\<open>NaN\<close> is absorbing.\<close>

fun js_add :: "jsnum \<Rightarrow> jsnum \<Rightarrow> jsnum" where
  "js_add (Num a) (Num b) = Num (a + b)"
| "js_add _ _ = NaN"

fun js_sub :: "jsnum \<Rightarrow> jsnum \<Rightarrow> jsnum" where
  "js_sub (Num a) (Num b) = Num (a - b)"
| "js_sub _ _ = NaN"

text \<open>
  \<^verbatim>\<open>a % b\<close>: the remainder of the truncating division, with the sign of the dividend;
  \<^verbatim>\<open>NaN\<close> when the divisor is zero.
\<close>

fun js_rem :: "jsnum \<Rightarrow> jsnum \<Rightarrow> jsnum" where
  "js_rem (Num a) (Num b) = (if b = 0 then NaN else Num (sgn a * (\<bar>a\<bar> mod \<bar>b\<bar>)))"
| "js_rem _ _ = NaN"

text \<open>Comparisons: every comparison with \<^verbatim>\<open>NaN\<close> is false, \<^verbatim>\<open>===\<close> included.\<close>

fun js_gt :: "jsnum \<Rightarrow> jsnum \<Rightarrow> bool" where
  "js_gt (Num a) (Num b) = (a > b)"
| "js_gt _ _ = False"

fun js_lt :: "jsnum \<Rightarrow> jsnum \<Rightarrow> bool" where
  "js_lt (Num a) (Num b) = (a < b)"
| "js_lt _ _ = False"

fun js_ge :: "jsnum \<Rightarrow> jsnum \<Rightarrow> bool" where
  "js_ge (Num a) (Num b) = (a \<ge> b)"
| "js_ge _ _ = False"

fun js_seq :: "jsnum \<Rightarrow> jsnum \<Rightarrow> bool" where
  "js_seq (Num a) (Num b) = (a = b)"
| "js_seq _ _ = False"

subsection \<open>Number to string\<close>

definition digit_char :: "nat \<Rightarrow> char" where
  "digit_char d = ''0123456789abcdef'' ! d"

function dec_digits :: "nat \<Rightarrow> string" where
  "dec_digits n = (if n < 10 then [digit_char n]
                   else dec_digits (n div 10) @ [digit_char (n mod 10)])"
  by pat_completeness auto
termination
  by (relation "measure id") auto

declare dec_digits.simps [simp del]

text \<open>\<^verbatim>\<open>n.toString()\<close> for an integer below \<open>10^21\<close> in magnitude, and for \<^verbatim>\<open>NaN\<close>.\<close>

fun toString :: "jsnum \<Rightarrow> string" where
  "toString NaN = ''NaN''"
| "toString (Num i) = (if i < 0 then CHR ''-'' # dec_digits (nat (- i)) else dec_digits (nat i))"

section \<open>FairRandom (game.js)\<close>

type_synonym byte = "8 word"

text \<open>
  The entropy source \<^verbatim>\<open>crypto.randomBytes\<close> is a parameter: the 32 bytes of the key, and
  the sequence of 32-bit values that the successive calls
  \<^verbatim>\<open>crypto.randomBytes(4).readUInt32BE(0)\<close> return.
\<close>

type_synonym draws = "nat \<Rightarrow> 32 word"

text \<open>
  The \<^verbatim>\<open>do ... while (rand >= limit)\<close> loop, started at draw number \<open>k\<close>. It returns the
  first draw that is not \<open>\<ge> limit\<close>; when every draw is rejected it never returns, which
  is the value \<open>None\<close>.
\<close>

partial_function (option) draw_loop :: "draws \<Rightarrow> jsnum \<Rightarrow> nat \<Rightarrow> jsnum option" where
  "draw_loop ds limit k =
     (let rand = Num (uint (ds k))
      in if js_ge rand limit then draw_loop ds limit (Suc k) else Some rand)"

declare draw_loop.simps [code]

definition sampler_limit :: "int \<Rightarrow> jsnum" where
  "sampler_limit mx = js_sub (Num (2 ^ 32)) (js_rem (Num (2 ^ 32)) (Num mx))"

definition generateUniformRandom :: "int \<Rightarrow> draws \<Rightarrow> jsnum option" where
  "generateUniformRandom mx ds =
     (case draw_loop ds (sampler_limit mx) 0 of
        None \<Rightarrow> None
      | Some rand \<Rightarrow> Some (js_rem rand (Num mx)))"

text \<open>
  The keyed hash \<^verbatim>\<open>crypto.createHmac('sha3-256', key)\<close> is a library primitive; it is a
  parameter \<open>hm\<close> taking the key and the message bytes to the digest bytes.
\<close>

type_synonym hmac_fn = "byte list \<Rightarrow> byte list \<Rightarrow> byte list"

definition hex_byte :: "byte \<Rightarrow> string" where
  "hex_byte b = [digit_char (unat b div 16), digit_char (unat b mod 16)]"

definition hex :: "byte list \<Rightarrow> string" where
  "hex bs = concat (map hex_byte bs)"

text \<open>The bytes of an ASCII string, as \<^verbatim>\<open>hmac.update(string)\<close> feeds them.\<close>

definition str_bytes :: "string \<Rightarrow> byte list" where
  "str_bytes s = map (\<lambda>c. of_nat (of_char c)) s"

text \<open>The fields of a session; \<open>secret\<close> is the field \<^verbatim>\<open>value\<close> of the source.\<close>

record FairRandom =
  rangeMax :: int
  key :: "byte list"
  secret :: jsnum
  hmac :: string

definition calculateHMAC :: "hmac_fn \<Rightarrow> byte list \<Rightarrow> jsnum \<Rightarrow> string" where
  "calculateHMAC hm k v = hex (hm k (str_bytes (toString v)))"

text \<open>
  The constructor: fixes the range, takes the key, samples the value and computes the
  digest. \<open>None\<close> when the sampling loop never returns.
\<close>

definition new_FairRandom :: "hmac_fn \<Rightarrow> byte list \<Rightarrow> draws \<Rightarrow> int \<Rightarrow> FairRandom option" where
  "new_FairRandom hm k ds mx =
     (case generateUniformRandom mx ds of
        None \<Rightarrow> None
      | Some v \<Rightarrow> Some \<lparr>rangeMax = mx, key = k, secret = v, hmac = calculateHMAC hm k v\<rparr>)"

definition revealKey :: "FairRandom \<Rightarrow> string" where
  "revealKey s = hex (key s)"

definition getValue :: "FairRandom \<Rightarrow> jsnum" where
  "getValue s = secret s"

section \<open>Strings\<close>

text \<open>
  Strings are lists of ASCII characters. \<open>is_ws\<close> is the white space that \<^verbatim>\<open>trim\<close>,
  \<^verbatim>\<open>parseInt\<close> and the string-to-number conversion skip (tab, line feed, vertical tab,
  form feed, carriage return, space).
\<close>

definition is_ws :: "char \<Rightarrow> bool" where
  "is_ws c = (let n = (of_char c :: nat) in (9 \<le> n \<and> n \<le> 13) \<or> n = 32)"

definition trim :: "string \<Rightarrow> string" where
  "trim s = rev (dropWhile is_ws (rev (dropWhile is_ws s)))"

definition lower_char :: "char \<Rightarrow> char" where
  "lower_char c = (let n = (of_char c :: nat) in if 65 \<le> n \<and> n \<le> 90 then char_of (n + 32) else c)"

definition toLowerCase :: "string \<Rightarrow> string" where
  "toLowerCase s = map lower_char s"

definition is_digit :: "char \<Rightarrow> bool" where
  "is_digit c = (let n = (of_char c :: nat) in 48 \<le> n \<and> n \<le> 57)"

definition digit_val :: "char \<Rightarrow> nat" where
  "digit_val c = of_char c - 48"

definition digits_val :: "string \<Rightarrow> nat" where
  "digits_val ds = foldl (\<lambda>a c. 10 * a + digit_val c) 0 ds"

text \<open>
  \<^verbatim>\<open>parseInt(s, 10)\<close>: skips leading white space, reads an optional sign and the longest
  prefix of decimal digits; \<^verbatim>\<open>NaN\<close> when that prefix is empty. Whatever follows the digits
  is ignored.
\<close>

definition parseInt10 :: "string \<Rightarrow> jsnum" where
  "parseInt10 s =
     (let s1 = dropWhile is_ws s;
          neg = (case s1 of c # _ \<Rightarrow> c = CHR ''-'' | [] \<Rightarrow> False);
          s2 = (case s1 of c # r \<Rightarrow> if c = CHR ''-'' \<or> c = CHR ''+'' then r else s1 | [] \<Rightarrow> s1);
          z = takeWhile is_digit s2
      in if z = [] then NaN
         else Num ((if neg then - 1 else 1) * int (digits_val z)))"

text \<open>\<^verbatim>\<open>s.split(',')\<close>: never empty; between \<open>n\<close> commas there are \<open>n + 1\<close> tokens.\<close>

fun split_comma :: "string \<Rightarrow> string list" where
  "split_comma [] = [[]]"
| "split_comma (c # cs) =
     (if c = CHR '','' then [] # split_comma cs
      else (case split_comma cs of t # ts \<Rightarrow> (c # t) # ts | [] \<Rightarrow> [[c]]))"

fun join :: "string \<Rightarrow> string list \<Rightarrow> string" where
  "join sep [] = []"
| "join sep [x] = x"
| "join sep (x # y # ys) = x @ sep @ join sep (y # ys)"

section \<open>Doubles and \<^verbatim>\<open>toFixed\<close>\<close>

text \<open>
  The result of a division, or of converting a decimal literal, need not be an integer.
  A finite double is modelled by its exact rational value, \<open>Quot q\<close>; every operation
  rounds its exact result to the nearest double, ties to the even significand, as IEEE 754
  binary64 does: 53 significant bits, exponents from \<open>-1022\<close> to \<open>1023\<close>, subnormal numbers
  below, infinity above.
\<close>

datatype jsquot = Quot rat | QInfinity | QNegInfinity | QNaN

fun js_neg :: "jsquot \<Rightarrow> jsquot" where
  "js_neg (Quot q) = Quot (- q)"
| "js_neg QInfinity = QNegInfinity"
| "js_neg QNegInfinity = QInfinity"
| "js_neg QNaN = QNaN"

text \<open>The position of the leading bit of \<open>n \<ge> 1\<close>: the integer part of its binary logarithm.\<close>

function log2_floor :: "int \<Rightarrow> int" where
  "log2_floor n = (if n < 2 then 0 else 1 + log2_floor (n div 2))"
  by pat_completeness auto
termination
  by (relation "measure nat") auto

declare log2_floor.simps [simp del]

definition pow2 :: "int \<Rightarrow> rat" where
  "pow2 k = (if k \<ge> 0 then 2 ^ nat k else 1 / 2 ^ nat (- k))"

text \<open>
  The exponent of the double nearest to \<open>p / q\<close>, for \<open>p, q > 0\<close>: the integer part of the
  binary logarithm of \<open>p / q\<close>, but never below \<open>-1022\<close>.
\<close>

definition double_exponent :: "int \<Rightarrow> int \<Rightarrow> int" where
  "double_exponent p q =
     (let e0 = log2_floor p - log2_floor q;
          e = (if (e0 \<ge> 0 \<and> p < q * 2 ^ nat e0) \<or> (e0 < 0 \<and> p * 2 ^ nat (- e0) < q)
               then e0 - 1 else e0)
      in max e (- 1022))"

text \<open>The integer nearest to \<open>num / den\<close>, the even one of two.\<close>

definition round_half_even :: "int \<Rightarrow> int \<Rightarrow> int" where
  "round_half_even num den =
     (let n = num div den; r = num mod den
      in if 2 * r < den then n
         else if den < 2 * r then n + 1
         else if even n then n else n + 1)"

text \<open>
  The double nearest to \<open>p / q\<close>, for \<open>p \<ge> 0\<close> and \<open>q > 0\<close>: \<open>n\<close> units in the last
  place, each \<open>2 ^ sh\<close>; infinity when that reaches \<open>2 ^ 1024\<close>.
\<close>

definition round_frac :: "int \<Rightarrow> int \<Rightarrow> jsquot" where
  "round_frac p q =
     (if p = 0 then Quot 0
      else
        (let sh = double_exponent p q - 52;
             n = (if sh \<ge> 0 then round_half_even p (q * 2 ^ nat sh)
                  else round_half_even (p * 2 ^ nat (- sh)) q)
         in if log2_floor n + sh \<ge> 1024 then QInfinity
            else Quot (of_int n * pow2 sh)))"

text \<open>The double nearest to a rational.\<close>

definition round_double :: "rat \<Rightarrow> jsquot" where
  "round_double x =
     (let (a, b) = quotient_of x
      in if a < 0 then js_neg (round_frac (- a) b) else round_frac a b)"

text \<open>\<^verbatim>\<open>a / b\<close> for two counters (non-negative integers).\<close>

definition js_div_nat :: "nat \<Rightarrow> nat \<Rightarrow> jsquot" where
  "js_div_nat a b =
     (if b = 0 then (if a = 0 then QNaN else QInfinity) else round_frac (int a) (int b))"

text \<open>\<^verbatim>\<open>x * k\<close> for a positive integer constant \<open>k\<close>.\<close>

fun js_scale :: "jsquot \<Rightarrow> nat \<Rightarrow> jsquot" where
  "js_scale (Quot q) k = round_double (q * of_nat k)"
| "js_scale x k = x"

text \<open>
  \<^verbatim>\<open>x.toFixed(f)\<close> for \<open>\<bar>x\<bar> < 10^21\<close>: the integer \<open>n\<close> with \<open>n / 10^f\<close> nearest to the exact
  value of the double \<open>x\<close> (the larger one of two), written with at least \<open>f + 1\<close> digits
  and a point before the last \<open>f\<close>.
\<close>

definition toFixed_abs :: "nat \<Rightarrow> rat \<Rightarrow> string" where
  "toFixed_abs f x =
     (let n = nat \<lfloor>x * 10 ^ f + 1 / 2\<rfloor>;
          m = dec_digits n;
          m' = (if length m \<le> f then replicate (f + 1 - length m) CHR ''0'' @ m else m);
          k = length m'
      in if f = 0 then m else take (k - f) m' @ ''.'' @ drop (k - f) m')"

fun toFixed :: "nat \<Rightarrow> jsquot \<Rightarrow> string" where
  "toFixed f (Quot q) = (if q < 0 then CHR ''-'' # toFixed_abs f (- q) else toFixed_abs f q)"
| "toFixed f QInfinity = ''Infinity''"
| "toFixed f QNegInfinity = ''-Infinity''"
| "toFixed f QNaN = ''NaN''"

section \<open>Dice and the probability calculators\<close>

text \<open>A \<^verbatim>\<open>Dice\<close> object holds its \<^verbatim>\<open>values\<close> array, nothing else.\<close>

type_synonym Dice = "jsnum list"

text \<open>\<^verbatim>\<open>roll(index)\<close> is \<^verbatim>\<open>this.values[index]\<close>: \<open>None\<close> stands for \<^verbatim>\<open>undefined\<close>.\<close>

fun roll :: "Dice \<Rightarrow> jsnum \<Rightarrow> jsnum option" where
  "roll d (Num i) = (if 0 \<le> i \<and> i < int (length d) then Some (d ! nat i) else None)"
| "roll d NaN = None"

datatype jsval = VNum jsnum | VStr string

fun render :: "jsval \<Rightarrow> string" where
  "render (VNum n) = toString n"
| "render (VStr s) = s"

subsection \<open>game.js: \<^verbatim>\<open>ProbabilityCalculator.calculateProbabilities\<close>\<close>

text \<open>The two nested \<^verbatim>\<open>forEach\<close> loops that count \<^verbatim>\<open>wins\<close>.\<close>

definition count_wins :: "Dice \<Rightarrow> Dice \<Rightarrow> nat" where
  "count_wins d1 d2 =
     fold (\<lambda>v1 wins. fold (\<lambda>v2 wins. if js_gt v1 v2 then wins + 1 else wins) d2 wins) d1 0"

text \<open>The body of the inner callback for the cell \<open>(i, j)\<close>: \<^verbatim>\<open>wins\<close> and \<^verbatim>\<open>total\<close>.\<close>

definition cell_counts :: "Dice \<Rightarrow> Dice \<Rightarrow> nat \<times> nat" where
  "cell_counts d1 d2 = (count_wins d1 d2, length d1 * length d2)"

definition table_cell :: "nat \<Rightarrow> Dice \<Rightarrow> nat \<Rightarrow> Dice \<Rightarrow> jsval" where
  "table_cell i d1 j d2 =
     (if i = j then VNum (Num 0)
      else (let (wins, total) = cell_counts d1 d2 in VStr (toFixed 4 (js_div_nat wins total))))"

definition calculateProbabilities :: "Dice list \<Rightarrow> jsval list list" where
  "calculateProbabilities diceList =
     map (\<lambda>(i, d1). map (\<lambda>(j, d2). table_cell i d1 j d2) (enumerate 0 diceList))
       (enumerate 0 diceList)"

text \<open>\<^verbatim>\<open>displayTable\<close>: the head and the rows handed to the table renderer.\<close>

definition dice_label :: "Dice \<Rightarrow> string" where
  "dice_label d = ''['' @ join '','' (map toString d) @ '']''"

definition displayTable :: "Dice list \<Rightarrow> string list list" where
  "displayTable diceList =
     ((''User dice '' @ [CHR 0x5C] @ '' Computer dice'') # map dice_label diceList) #
     map (\<lambda>(i, userDice).
            dice_label userDice #
            map (\<lambda>(j, prob). if i = j then ''- ('' @ render prob @ '')'' else render prob)
              (enumerate 0 (calculateProbabilities diceList ! i)))
       (enumerate 0 diceList)"

subsection \<open>part\_000: \<^verbatim>\<open>ProbabilityCalculator.calculateProbability\<close>\<close>

text \<open>The two nested \<^verbatim>\<open>for ... of\<close> loops, with the pair \<open>(wins, total)\<close> as state.\<close>

definition probability_loop :: "Dice \<Rightarrow> Dice \<Rightarrow> nat \<times> nat" where
  "probability_loop dice1 dice2 =
     fold (\<lambda>roll1 st.
             fold (\<lambda>roll2 (wins, total).
                     (if js_gt roll1 roll2 then wins + 1 else wins, total + 1)) dice2 st)
       dice1 (0, 0)"

record Probability =
  fraction :: string
  percentage :: string

definition calculateProbability :: "Dice \<Rightarrow> Dice \<Rightarrow> Probability" where
  "calculateProbability dice1 dice2 =
     (let (wins, total) = probability_loop dice1 dice2;
          probability = js_div_nat wins total
      in \<lparr>fraction = dec_digits wins @ ''/'' @ dec_digits total,
          percentage = toFixed 2 (js_scale probability 100)\<rparr>)"

section \<open>DiceGame (game.js)\<close>

subsection \<open>Console events and outcomes\<close>

text \<open>
  What a run writes to the console and reads from it, in order. Each constructor stands
  for one kind of \<^verbatim>\<open>console.log\<close> line of \<^verbatim>\<open>game.js\<close>, with the values interpolated into
  it:
  \<^item> \<open>LogCommit hi h\<close>: ``I selected a random value in the range 0..hi (HMAC=h).'';
  \<^item> \<open>LogReveal v k\<close>: ``My selection: v (KEY=k).'' and ``My number is v (KEY=k).'';
  \<^item> \<open>LogResult u c r n\<close>: ``The result is u + c = r (mod n).'';
  \<^item> \<open>LogDie i d\<close>: the line ``i - [d]'' of the dice menu;
  \<^item> \<open>LogChoice d\<close>: ``I choose the dice: [d]'';
  \<^item> \<open>LogThrow who x\<close>: ``Your throw: x'' and ``My throw: x'';
  \<^item> \<open>Prompt p\<close> and \<open>Answer l\<close>: \<^verbatim>\<open>readlineSync.question(p)\<close> shows \<open>p\<close> and reads \<open>l\<close>;
  \<^item> \<open>InputReceived n\<close>: \<^verbatim>\<open>getUserInput\<close> returns \<open>n\<close> to its caller (nothing is printed);
  \<^item> \<open>ShowTable t\<close>: the probability table handed to the renderer;
  \<^item> \<open>ProcessExit\<close>: \<^verbatim>\<open>process.exit()\<close>;
  \<^item> \<open>Log s\<close>: any other line, a fixed text.
\<close>

datatype event =
    Log string
  | LogCommit jsnum string
  | LogReveal jsnum string
  | LogResult int jsnum jsnum int
  | LogDie nat Dice
  | LogChoice Dice
  | LogThrow string "jsnum option"
  | Prompt string
  | Answer string
  | InputReceived int
  | ShowTable "string list list"
  | ProcessExit

datatype js_error = TypeError | RangeError

text \<open>
  How a call ends: it returns, the process exits, it waits for a line that never comes,
  the sampling loop never returns, or it throws.
\<close>

datatype 'a outcome = Returned 'a | Exited | Blocked | Hung | Threw js_error

type_synonym 'a run = "event list \<times> 'a outcome"

definition emit :: "event list \<Rightarrow> unit run" where
  "emit evs = (evs, Returned ())"

definition ret :: "'a \<Rightarrow> 'a run" where
  "ret x = ([], Returned x)"

text \<open>Sequencing: the second part runs only when the first returns.\<close>

definition and_then :: "'a run \<Rightarrow> ('a \<Rightarrow> 'b run) \<Rightarrow> 'b run" where
  "and_then m f =
     (case snd m of
        Returned a \<Rightarrow> (fst m @ fst (f a), snd (f a))
      | Exited \<Rightarrow> (fst m, Exited)
      | Blocked \<Rightarrow> (fst m, Blocked)
      | Hung \<Rightarrow> (fst m, Hung)
      | Threw e \<Rightarrow> (fst m, Threw e))"

subsection \<open>The game object\<close>

record DiceGame =
  dice :: "Dice list"
  availableDice :: "Dice list"
  userDice :: "Dice option"
  computerDice :: "Dice option"

definition new_DiceGame :: "Dice list \<Rightarrow> DiceGame" where
  "new_DiceGame diceConfigs =
     \<lparr>dice = diceConfigs, availableDice = diceConfigs, userDice = None, computerDice = None\<rparr>"

text \<open>
  \<^verbatim>\<open>getUserInput(prompt, validInputs)\<close> over the lines the user will type. It returns the
  accepted number and the lines left.
\<close>

fun getUserInput :: "Dice list \<Rightarrow> string \<Rightarrow> int list \<Rightarrow> string list \<Rightarrow> (int \<times> string list) run" where
  "getUserInput ds prompt validInputs [] = ([Prompt prompt], Blocked)"
| "getUserInput ds prompt validInputs (l # ls) =
     (let input = trim l in
      if toLowerCase input = ''x'' then
        ([Prompt prompt, Answer l, Log ''Game exited.'', ProcessExit], Exited)
      else if toLowerCase input = ''?'' then
        and_then (emit [Prompt prompt, Answer l, ShowTable (displayTable ds)])
          (\<lambda>_. getUserInput ds prompt validInputs ls)
      else
        (case parseInt10 input of
           Num parsed \<Rightarrow>
             if parsed \<in> set validInputs
             then ([Prompt prompt, Answer l, InputReceived parsed], Returned (parsed, ls))
             else and_then (emit [Prompt prompt, Answer l, Log ''Invalid input. Try again.''])
                    (\<lambda>_. getUserInput ds prompt validInputs ls)
         | NaN \<Rightarrow>
             and_then (emit [Prompt prompt, Answer l, Log ''Invalid input. Try again.''])
               (\<lambda>_. getUserInput ds prompt validInputs ls)))"

declare getUserInput.simps [simp del]

text \<open>\<^verbatim>\<open>[...Array(n).keys()]\<close>\<close>

definition keys :: "nat \<Rightarrow> int list" where
  "keys n = map int [0..<n]"

text \<open>\<^verbatim>\<open>xs.splice(i, 1)[0]\<close> for \<open>i \<ge> 0\<close>: the array left and the element removed, if any.\<close>

definition splice1 :: "nat \<Rightarrow> 'a list \<Rightarrow> 'a list \<times> 'a option" where
  "splice1 i xs = (take i xs @ drop (Suc i) xs, if i < length xs then Some (xs ! i) else None)"

definition userSelectDice :: "DiceGame \<Rightarrow> string list \<Rightarrow> (DiceGame \<times> string list) run" where
  "userSelectDice g ls =
     and_then (emit (Log ''Choose your dice:'' # map (\<lambda>(index, die). LogDie index die) (enumerate 0 (dice g))))
       (\<lambda>_. and_then (getUserInput (dice g) ''Your selection: '' (keys (length (dice g))) ls)
          (\<lambda>(selection, rest).
             (let (left, removed) = splice1 (nat selection) (dice g)
              in ret (g\<lparr>dice := left, userDice := removed\<rparr>, rest))))"

text \<open>
  \<^verbatim>\<open>crypto.randomInt(n)\<close> is a parameter \<open>pick\<close>: the index it returns for \<open>n\<close>. It throws
  a \<^verbatim>\<open>RangeError\<close> unless \<open>n > 0\<close>.
\<close>

definition computerSelectDice :: "DiceGame \<Rightarrow> (nat \<Rightarrow> nat) \<Rightarrow> DiceGame run" where
  "computerSelectDice g pick =
     (if length (dice g) = 0 then ([], Threw RangeError)
      else
        (let randomIndex = pick (length (dice g));
             (left, removed) = splice1 randomIndex (dice g)
         in case removed of
              None \<Rightarrow> ([], Threw TypeError)
            | Some d \<Rightarrow>
                and_then (emit [LogChoice d])
                  (\<lambda>_. ret (g\<lparr>dice := left, computerDice := removed\<rparr>))))"

text \<open>
  One throw with the die \<open>d\<close>: commit, read the user's number, reveal, combine, roll.
  \<^verbatim>\<open>userThrow\<close> and \<^verbatim>\<open>computerThrow\<close> are this body with \<^verbatim>\<open>this.userDice\<close> and
  \<^verbatim>\<open>this.computerDice\<close>; reading \<^verbatim>\<open>.values\<close> of an unset die throws.
\<close>

text \<open>The prompt \<^verbatim>\<open>`Add your number modulo ${n}: `\<close>.\<close>

definition throw_prompt :: "nat \<Rightarrow> string" where
  "throw_prompt n = ''Add your number modulo '' @ toString (Num (int n)) @ '': ''"

definition throw_with :: "hmac_fn \<Rightarrow> Dice list \<Rightarrow> Dice option \<Rightarrow> byte list \<Rightarrow> draws \<Rightarrow> string list
    \<Rightarrow> (jsnum option \<times> string list) run" where
  "throw_with hm ds die k dr ls =
     (case die of
        None \<Rightarrow> ([], Threw TypeError)
      | Some d \<Rightarrow>
          (let n = length d in
           case new_FairRandom hm k dr (int n) of
             None \<Rightarrow> ([], Hung)
           | Some fairness \<Rightarrow>
               and_then (emit [LogCommit (Num (int n - 1)) (hmac fairness)])
                 (\<lambda>_. and_then
                    (getUserInput ds (throw_prompt n) (keys n) ls)
                    (\<lambda>(userInput, rest).
                       (let computerValue = getValue fairness;
                            result = js_rem (js_add (Num userInput) computerValue) (Num (int n))
                        in and_then
                             (emit [LogReveal computerValue (revealKey fairness),
                                    LogResult userInput computerValue result (int n)])
                             (\<lambda>_. ret (roll d result, rest)))))))"

definition userThrow :: "hmac_fn \<Rightarrow> DiceGame \<Rightarrow> byte list \<Rightarrow> draws \<Rightarrow> string list
    \<Rightarrow> (jsnum option \<times> string list) run" where
  "userThrow hm g k dr ls = throw_with hm (dice g) (userDice g) k dr ls"

definition computerThrow :: "hmac_fn \<Rightarrow> DiceGame \<Rightarrow> byte list \<Rightarrow> draws \<Rightarrow> string list
    \<Rightarrow> (jsnum option \<times> string list) run" where
  "computerThrow hm g k dr ls = throw_with hm (dice g) (computerDice g) k dr ls"

text \<open>Comparisons with \<^verbatim>\<open>undefined\<close> are false.\<close>

fun gt_val :: "jsnum option \<Rightarrow> jsnum option \<Rightarrow> bool" where
  "gt_val (Some a) (Some b) = js_gt a b"
| "gt_val _ _ = False"

fun lt_val :: "jsnum option \<Rightarrow> jsnum option \<Rightarrow> bool" where
  "lt_val (Some a) (Some b) = js_lt a b"
| "lt_val _ _ = False"

definition declareWinner :: "jsnum option \<Rightarrow> jsnum option \<Rightarrow> unit run" where
  "declareWinner userRoll computerRoll =
     emit [LogThrow ''Your throw'' userRoll, LogThrow ''My throw'' computerRoll,
           if gt_val userRoll computerRoll then Log ''You win!''
           else if lt_val userRoll computerRoll then Log ''I win!''
           else Log ''It's a tie!'']"

text \<open>
  The randomness one game consumes: key and draws of the turn-order session, the
  computer's pick, key and draws of the two throws.
\<close>

record randomness =
  turn_key :: "byte list"
  turn_draws :: draws
  pick_index :: "nat \<Rightarrow> nat"
  cthrow_key :: "byte list"
  cthrow_draws :: draws
  uthrow_key :: "byte list"
  uthrow_draws :: draws

text \<open>The turn-order part of \<^verbatim>\<open>start\<close>: it returns \<^verbatim>\<open>userFirst\<close> and the lines left.\<close>

definition turn_order :: "hmac_fn \<Rightarrow> DiceGame \<Rightarrow> randomness \<Rightarrow> string list \<Rightarrow> (bool \<times> string list) run" where
  "turn_order hm g rnd ls =
     and_then (emit [Log ''Let's determine who makes the first move.''])
       (\<lambda>_. case new_FairRandom hm (turn_key rnd) (turn_draws rnd) 2 of
               None \<Rightarrow> ([], Hung)
             | Some fairness \<Rightarrow>
                 and_then (emit [LogCommit (Num 1) (hmac fairness)])
                   (\<lambda>_. and_then
                      (getUserInput (dice g) ''Try to guess my selection (0 or 1): '' [0, 1] ls)
                      (\<lambda>(userGuess, rest).
                         (let computerValue = getValue fairness
                          in and_then (emit [LogReveal computerValue (revealKey fairness)])
                               (\<lambda>_. ret (js_seq (Num userGuess) computerValue, rest))))))"

text \<open>The two branches of \<^verbatim>\<open>start\<close> on \<^verbatim>\<open>userFirst\<close>: who selects a die first.\<close>

definition select_dice :: "bool \<Rightarrow> DiceGame \<Rightarrow> randomness \<Rightarrow> string list \<Rightarrow> (DiceGame \<times> string list) run" where
  "select_dice userFirst g rnd ls =
     (if userFirst then
        and_then (emit [Log ''You make the first move!''])
          (\<lambda>_. and_then (userSelectDice g ls)
             (\<lambda>(g1, rest). and_then (computerSelectDice g1 (pick_index rnd))
                (\<lambda>g2. ret (g2, rest))))
      else
        and_then (emit [Log ''I make the first move!''])
          (\<lambda>_. and_then (computerSelectDice g (pick_index rnd))
             (\<lambda>g1. userSelectDice g1 ls)))"

definition start :: "hmac_fn \<Rightarrow> DiceGame \<Rightarrow> randomness \<Rightarrow> string list \<Rightarrow> unit run" where
  "start hm g rnd ls =
     and_then (turn_order hm g rnd ls)
       (\<lambda>(userFirst, l1). and_then (select_dice userFirst g rnd l1)
          (\<lambda>(g2, l2). and_then (emit [Log ''Let's roll!''])
             (\<lambda>_. and_then (computerThrow hm g2 (cthrow_key rnd) (cthrow_draws rnd) l2)
                (\<lambda>(computerRoll, l3). and_then (userThrow hm g2 (uthrow_key rnd) (uthrow_draws rnd) l3)
                   (\<lambda>(userRoll, l4). declareWinner userRoll computerRoll)))))"

section \<open>String to number\<close>

text \<open>
  \<^verbatim>\<open>Number(s)\<close>, which the global \<^verbatim>\<open>isNaN(s)\<close> applies to a string first: white space is
  trimmed at both ends; the empty string is \<open>0\<close>; \<^verbatim>\<open>0x\<close>, \<^verbatim>\<open>0o\<close> and \<^verbatim>\<open>0b\<close> introduce an
  unsigned hexadecimal, octal or binary integer; otherwise the string must be a signed
  decimal literal (digits, an optional fraction, an optional exponent) or
  \<^verbatim>\<open>Infinity\<close>. Anything else is \<^verbatim>\<open>NaN\<close>. The value is the double nearest to the
  literal's exact value.
\<close>

definition digit_of :: "char \<Rightarrow> nat option" where
  "digit_of c =
     (let n = (of_char c :: nat) in
      if 48 \<le> n \<and> n \<le> 57 then Some (n - 48)
      else if 97 \<le> n \<and> n \<le> 102 then Some (n - 87)
      else if 65 \<le> n \<and> n \<le> 70 then Some (n - 55)
      else None)"

definition radix_digit :: "nat \<Rightarrow> char \<Rightarrow> bool" where
  "radix_digit r c = (case digit_of c of Some d \<Rightarrow> d < r | None \<Rightarrow> False)"

definition radix_val :: "nat \<Rightarrow> string \<Rightarrow> nat" where
  "radix_val r ds = foldl (\<lambda>a c. r * a + (case digit_of c of Some d \<Rightarrow> d | None \<Rightarrow> 0)) 0 ds"

definition prefix_radix :: "char \<Rightarrow> nat option" where
  "prefix_radix c =
     (if c = CHR ''x'' \<or> c = CHR ''X'' then Some 16
      else if c = CHR ''o'' \<or> c = CHR ''O'' then Some 8
      else if c = CHR ''b'' \<or> c = CHR ''B'' then Some 2
      else None)"

definition non_decimal :: "string \<Rightarrow> nat option" where
  "non_decimal s =
     (case s of
        c0 # c1 # rest \<Rightarrow>
          (if c0 = CHR ''0'' then
             (case prefix_radix c1 of
                Some r \<Rightarrow> if rest \<noteq> [] \<and> list_all (radix_digit r) rest
                          then Some (radix_val r rest) else None
              | None \<Rightarrow> None)
           else None)
      | _ \<Rightarrow> None)"

text \<open>The double nearest to \<open>m * 10 ^ e\<close>.\<close>

definition round_scaled :: "nat \<Rightarrow> int \<Rightarrow> jsquot" where
  "round_scaled m e =
     (if e \<ge> 0 then round_frac (int m * 10 ^ nat e) 1 else round_frac (int m) (10 ^ nat (- e)))"

text \<open>The exponent part: nothing, or \<^verbatim>\<open>e\<close>, an optional sign and at least one digit.\<close>

definition exponent_part :: "string \<Rightarrow> int option" where
  "exponent_part s =
     (case s of
        [] \<Rightarrow> Some 0
      | c # r \<Rightarrow>
          (if c = CHR ''e'' \<or> c = CHR ''E'' then
             (let neg = (case r of s0 # _ \<Rightarrow> s0 = CHR ''-'' | [] \<Rightarrow> False);
                  ds = (case r of s0 # r' \<Rightarrow> if s0 = CHR ''-'' \<or> s0 = CHR ''+'' then r' else r | [] \<Rightarrow> r)
              in if ds \<noteq> [] \<and> list_all is_digit ds
                 then Some ((if neg then - 1 else 1) * int (digits_val ds)) else None)
           else None))"

definition unsigned_decimal :: "string \<Rightarrow> jsquot" where
  "unsigned_decimal s =
     (if s = ''Infinity'' then QInfinity
      else
        (let d1 = takeWhile is_digit s;
             r1 = dropWhile is_digit s;
             dot = (case r1 of c # _ \<Rightarrow> c = CHR ''.'' | [] \<Rightarrow> False);
             d2 = (if dot then takeWhile is_digit (tl r1) else []);
             r2 = (if dot then dropWhile is_digit (tl r1) else r1)
         in if d1 = [] \<and> d2 = [] then QNaN
            else (case exponent_part r2 of
                    None \<Rightarrow> QNaN
                  | Some e \<Rightarrow> round_scaled (digits_val (d1 @ d2)) (e - int (length d2)))))"

definition Number_str :: "string \<Rightarrow> jsquot" where
  "Number_str s =
     (let t = trim s in
      if t = [] then Quot 0
      else
        (case non_decimal t of
           Some n \<Rightarrow> round_frac (int n) 1
         | None \<Rightarrow>
             (if hd t = CHR ''-'' then js_neg (unsigned_decimal (tl t))
              else if hd t = CHR ''+'' then unsigned_decimal (tl t)
              else unsigned_decimal t)))"

definition isNaN_str :: "string \<Rightarrow> bool" where
  "isNaN_str s = (Number_str s = QNaN)"

fun isInteger :: "jsquot \<Rightarrow> bool" where
  "isInteger (Quot q) = (q = of_int \<lfloor>q\<rfloor>)"
| "isInteger _ = False"

section \<open>DiceParser (game.js)\<close>

text \<open>
  Each of the three \<^verbatim>\<open>console.error\<close> messages is followed by \<^verbatim>\<open>process.exit(1)\<close>; the
  exit carries which message it was, with the die number and the token it names.
\<close>

datatype parse_exit = TooFewDice | NonIntegerValue nat string | NotSixValues nat

text \<open>The inner \<^verbatim>\<open>map\<close> over the tokens of die number \<open>index\<close>.\<close>

fun parse_values :: "nat \<Rightarrow> string list \<Rightarrow> parse_exit + jsnum list" where
  "parse_values index [] = Inr []"
| "parse_values index (v # vs) =
     (if isNaN_str v then Inl (NonIntegerValue (index + 1) v)
      else (case parse_values index vs of
              Inl e \<Rightarrow> Inl e
            | Inr r \<Rightarrow> Inr (parseInt10 v # r)))"

definition parse_arg :: "nat \<Rightarrow> string \<Rightarrow> parse_exit + Dice" where
  "parse_arg index arg =
     (case parse_values index (split_comma arg) of
        Inl e \<Rightarrow> Inl e
      | Inr values \<Rightarrow> if length values \<noteq> 6 then Inl (NotSixValues (index + 1)) else Inr values)"

text \<open>The outer \<^verbatim>\<open>map\<close> over the arguments, from index \<open>index\<close> on.\<close>

fun parse_args :: "nat \<Rightarrow> string list \<Rightarrow> parse_exit + Dice list" where
  "parse_args index [] = Inr []"
| "parse_args index (arg # args) =
     (case parse_arg index arg of
        Inl e \<Rightarrow> Inl e
      | Inr d \<Rightarrow> (case parse_args (index + 1) args of
                    Inl e \<Rightarrow> Inl e
                  | Inr ds \<Rightarrow> Inr (d # ds)))"

definition parseDice :: "string list \<Rightarrow> parse_exit + Dice list" where
  "parseDice args = (if length args < 3 then Inl TooFewDice else parse_args 0 args)"

section \<open>The second program (part\_000)\<close>

datatype js_exn = Error string

text \<open>
  \<^verbatim>\<open>new Dice(values)\<close>: the values are the results of \<^verbatim>\<open>Number\<close>; a value that passes
  \<^verbatim>\<open>Number.isInteger\<close> is kept as the integer it is.
\<close>

fun int_of_quot :: "jsquot \<Rightarrow> jsnum" where
  "int_of_quot (Quot q) = Num \<lfloor>q\<rfloor>"
| "int_of_quot _ = NaN"

definition new_Dice :: "jsquot list \<Rightarrow> js_exn + Dice" where
  "new_Dice values =
     (if length values \<noteq> 6 \<or> \<not> list_all isInteger values
      then Inl (Error ''Each dice must have 6 integer values.'')
      else Inr (map int_of_quot values))"

fun push_dice :: "string list \<Rightarrow> js_exn + Dice list" where
  "push_dice [] = Inr []"
| "push_dice (arg # args) =
     (case new_Dice (map Number_str (split_comma arg)) of
        Inl e \<Rightarrow> Inl e
      | Inr d \<Rightarrow> (case push_dice args of Inl e \<Rightarrow> Inl e | Inr ds \<Rightarrow> Inr (d # ds)))"

definition parseArgs :: "string list \<Rightarrow> js_exn + Dice list" where
  "parseArgs args =
     (if length args < 3 then Inl (Error ''At least three dice configurations are required.'')
      else push_dice args)"

definition new_DiceConfiguration :: "string list \<Rightarrow> js_exn + Dice list" where
  "new_DiceConfiguration args = parseArgs args"

text \<open>
  \<^verbatim>\<open>FairRandomGenerator.generateHMAC(value)\<close>: the message is the one byte
  \<^verbatim>\<open>Buffer.from([value])\<close>, the value modulo 256.
\<close>

definition generateHMAC :: "hmac_fn \<Rightarrow> byte list \<Rightarrow> int \<Rightarrow> string" where
  "generateHMAC hm k v = hex (hm k [of_int v])"

text \<open>
  \<^verbatim>\<open>FairRandomGenerator.generateSecureValue(rangeMax)\<close>: \<open>v\<close> is what
  \<^verbatim>\<open>crypto.randomInt(0, rangeMax)\<close> returned; the result is the value with its digest.
\<close>

definition generateSecureValue :: "hmac_fn \<Rightarrow> byte list \<Rightarrow> int \<Rightarrow> int \<times> string" where
  "generateSecureValue hm k v = (v, generateHMAC hm k v)"

text \<open>
  \<^verbatim>\<open>parseInt(s)\<close> without a radix: as \<open>parseInt10\<close>, but \<^verbatim>\<open>0x\<close> after the sign selects
  radix 16.
\<close>

definition parseInt_auto :: "string \<Rightarrow> jsnum" where
  "parseInt_auto s =
     (let s1 = dropWhile is_ws s;
          neg = (case s1 of c # _ \<Rightarrow> c = CHR ''-'' | [] \<Rightarrow> False);
          s2 = (case s1 of c # r \<Rightarrow> if c = CHR ''-'' \<or> c = CHR ''+'' then r else s1 | [] \<Rightarrow> s1);
          hexa = (case s2 of c0 # c1 # _ \<Rightarrow> c0 = CHR ''0'' \<and> (c1 = CHR ''x'' \<or> c1 = CHR ''X'') | _ \<Rightarrow> False);
          r = (if hexa then 16 else 10);
          s3 = (if hexa then drop 2 s2 else s2);
          z = takeWhile (radix_digit r) s3
      in if z = [] then NaN
         else Num ((if neg then - 1 else 1) * int (radix_val r z)))"

text \<open>
  \<^verbatim>\<open>Game.determineTurnOrder\<close>: \<open>v\<close> is what \<^verbatim>\<open>crypto.randomInt(0, 2)\<close> returns inside
  \<^verbatim>\<open>generateSecureValue(2)\<close>; the promise resolves to \<^verbatim>\<open>'user'\<close> or \<^verbatim>\<open>'computer'\<close> once a
  line is read.
\<close>

definition determineTurnOrder :: "hmac_fn \<Rightarrow> byte list \<Rightarrow> int \<Rightarrow> string list \<Rightarrow> string run" where
  "determineTurnOrder hm k v ls =
     (let (compVal, compHmac) = generateSecureValue hm k v in
      and_then (emit [Log (''Computer HMAC: '' @ compHmac),
                      Prompt ''Guess computer selection (0 or 1): ''])
        (\<lambda>_. case ls of
                [] \<Rightarrow> ([], Blocked)
              | userGuess # _ \<Rightarrow>
                  (if js_seq (parseInt_auto userGuess) (Num compVal) then
                     and_then (emit [Answer userGuess,
                                     Log (''Correct! Computer reveals key: '' @ hex k)])
                       (\<lambda>_. ret ''user'')
                   else
                     and_then (emit [Answer userGuess,
                                     Log (''Incorrect. Computer goes first (key: '' @ hex k @ '').'')])
                       (\<lambda>_. ret ''computer''))))"

section \<open>Order of commitment, input and revelation\<close>

text \<open>
  The phases of a session as the console shows them: after \<open>LogCommit\<close> the digest is
  published, after \<open>InputReceived\<close> the counterpart's number is in, and \<open>LogReveal\<close> is
  legal in that phase only. \<open>phase_step\<close> is \<open>None\<close> when an event is illegal.
\<close>

datatype phase = Idle | Committed | Received

fun phase_step :: "phase \<Rightarrow> event \<Rightarrow> phase option" where
  "phase_step p (LogCommit hi h) = Some Committed"
| "phase_step p (InputReceived n) = Some (if p = Committed then Received else p)"
| "phase_step p (LogReveal v k) = (if p = Received then Some Idle else None)"
| "phase_step p e = Some p"

fun phases :: "phase \<Rightarrow> event list \<Rightarrow> phase option" where
  "phases p [] = Some p"
| "phases p (e # es) = (case phase_step p e of None \<Rightarrow> None | Some q \<Rightarrow> phases q es)"

definition reveal_after_input :: "event list \<Rightarrow> bool" where
  "reveal_after_input tr = (phases Idle tr \<noteq> None)"

section \<open>Counting face pairs\<close>


text \<open>The number of face pairs \<open>(a, b)\<close> of the Cartesian product with \<^verbatim>\<open>a > b\<close>.\<close>

definition winning_pairs :: "Dice \<Rightarrow> Dice \<Rightarrow> nat" where
  "winning_pairs d1 d2 = length (filter (\<lambda>(a, b). js_gt a b) (List.product d1 d2))"


section \<open>Example inputs\<close>

text \<open>An entropy source that returns the same 32-bit value at every draw.\<close>

definition fixed_draws :: "32 word \<Rightarrow> draws" where
  "fixed_draws w = (\<lambda>_. w)"

text \<open>An entropy source whose first draw is \<open>w0\<close> and every later one \<open>w\<close>.\<close>

definition draws_after :: "32 word \<Rightarrow> 32 word \<Rightarrow> draws" where
  "draws_after w0 w = (\<lambda>i. if i = 0 then w0 else w)"

text \<open>A stand-in for the keyed hash, to run the programs on examples: key, then message.\<close>

definition concat_hmac :: hmac_fn where
  "concat_hmac k m = k @ m"

definition die1 :: Dice where
  "die1 = map Num [2, 2, 4, 4, 9, 9]"

definition die2 :: Dice where
  "die2 = map Num [1, 1, 6, 6, 8, 8]"

definition die3 :: Dice where
  "die3 = map Num [7, 5, 3, 7, 5, 3]"

text \<open>
  Two dice of 40 faces: \<open>die40a\<close> beats \<open>die40b\<close> on the \<open>2 * 29 = 58\<close> pairs of a face 1
  of the first with a face 0 of the second.
\<close>

definition die40a :: Dice where
  "die40a = replicate 2 (Num 1) @ replicate 38 (Num 0)"

definition die40b :: Dice where
  "die40b = replicate 29 (Num 0) @ replicate 11 (Num 1)"

definition example_randomness :: randomness where
  "example_randomness =
     \<lparr>turn_key = [1, 2], turn_draws = fixed_draws 1, pick_index = (\<lambda>n. 0),
      cthrow_key = [3], cthrow_draws = fixed_draws 9,
      uthrow_key = [4], uthrow_draws = fixed_draws 3\<rparr>"

text \<open>A game after the dice selection: the user holds \<open>die1\<close>, the computer \<open>die2\<close>.\<close>

definition example_game :: DiceGame where
  "example_game =
     \<lparr>dice = [die3], availableDice = [die1, die2, die3],
      userDice = Some die1, computerDice = Some die2\<rparr>"

section \<open>Evaluating the number formats\<close>

lemma dec_digits_small: "n < 10 \<Longrightarrow> dec_digits n = [digit_char n]"
  by (subst dec_digits.simps) simp

lemma dec_digits_step:
  "10 \<le> n \<Longrightarrow> dec_digits n = dec_digits (n div 10) @ [digit_char (n mod 10)]"
  by (subst dec_digits.simps) simp

lemmas dec_eval = dec_digits_small dec_digits_step digit_char_def

section \<open>The uniform sampler\<close>

lemma draw_loop_accept:
  "\<not> js_ge (Num (uint (ds k))) limit \<Longrightarrow> draw_loop ds limit k = Some (Num (uint (ds k)))"
  by (subst draw_loop.simps) simp

lemma draw_loop_reject:
  "js_ge (Num (uint (ds k))) limit \<Longrightarrow> draw_loop ds limit k = draw_loop ds limit (Suc k)"
  by (subst draw_loop.simps) simp

text \<open>The loop returns the first draw that is not rejected.\<close>

lemma draw_loop_first:
  assumes "\<forall>i. k \<le> i \<and> i < j \<longrightarrow> js_ge (Num (uint (ds i))) limit"
    and "\<not> js_ge (Num (uint (ds j))) limit"
    and "k \<le> j"
  shows "draw_loop ds limit k = Some (Num (uint (ds j)))"
  using assms
proof (induction "j - k" arbitrary: k)
  case 0
  then have "k = j" by simp
  with 0 show ?case by (simp add: draw_loop_accept)
next
  case (Suc n)
  then have lt: "k < j" by simp
  with Suc.prems have "js_ge (Num (uint (ds k))) limit" by simp
  then have "draw_loop ds limit k = draw_loop ds limit (Suc k)"
    by (rule draw_loop_reject)
  moreover have "draw_loop ds limit (Suc k) = Some (Num (uint (ds j)))"
  proof (rule Suc.hyps(1))
    show "n = j - Suc k" using Suc.hyps(2) by simp
    show "\<forall>i. Suc k \<le> i \<and> i < j \<longrightarrow> js_ge (Num (uint (ds i))) limit"
      using Suc.prems(1) by simp
    show "\<not> js_ge (Num (uint (ds j))) limit" by (rule Suc.prems(2))
    show "Suc k \<le> j" using lt by simp
  qed
  ultimately show ?case by simp
qed

text \<open>Whatever the loop returns is a draw that was not rejected.\<close>

lemma draw_loop_Some:
  assumes "draw_loop ds limit k = Some r"
  shows "\<exists>j\<ge>k. r = Num (uint (ds j)) \<and> \<not> js_ge r limit"
  using assms
proof (induction ds limit k r rule: draw_loop.raw_induct)
  case (1 f ds limit k r)
  show ?case
  proof (cases "js_ge (Num (uint (ds k))) limit")
    case True
    with 1(2) have "f ds limit (Suc k) = Some r" by (simp add: Let_def)
    moreover from 1(3) True have "draw_loop ds limit (Suc k) = Some r"
      by (simp add: draw_loop_reject)
    ultimately obtain j where j: "Suc k \<le> j" "r = Num (uint (ds j))" "\<not> js_ge r limit"
      using 1(1) by blast
    show ?thesis
    proof (intro exI conjI)
      show "k \<le> j" using j(1) by simp
      show "r = Num (uint (ds j))" by (rule j(2))
      show "\<not> js_ge r limit" by (rule j(3))
    qed
  next
    case False
    with 1(2) have r: "r = Num (uint (ds k))" by (simp add: Let_def)
    show ?thesis
    proof (intro exI conjI)
      show "k \<le> k" by simp
      show "r = Num (uint (ds k))" by (rule r)
      show "\<not> js_ge r limit" using False r by simp
    qed
  qed
qed (rule assms)

lemma draw_loop_None:
  assumes "\<forall>i. js_ge (Num (uint (ds i))) limit"
  shows "draw_loop ds limit k = None"
proof (cases "draw_loop ds limit k")
  case None
  then show ?thesis .
next
  case (Some r)
  from draw_loop_Some [OF this] assms show ?thesis by auto
qed

lemma sampler_limit_pos:
  "1 \<le> N \<Longrightarrow> sampler_limit N = Num (2 ^ 32 - 2 ^ 32 mod N)"
  by (simp add: sampler_limit_def)

lemma js_rem_nonneg:
  "0 \<le> a \<Longrightarrow> b \<noteq> 0 \<Longrightarrow> js_rem (Num a) (Num b) = Num (a mod \<bar>b\<bar>)"
  by (cases "a = 0") (simp_all add: sgn_if)

lemma generateUniformRandom_first:
  assumes "1 \<le> N"
    and "\<forall>i<k. 2 ^ 32 - 2 ^ 32 mod N \<le> uint (ds i)"
    and "uint (ds k) < 2 ^ 32 - 2 ^ 32 mod N"
  shows "generateUniformRandom N ds = Some (Num (uint (ds k) mod N))"
proof -
  have "draw_loop ds (sampler_limit N) 0 = Some (Num (uint (ds k)))"
    using assms by (intro draw_loop_first) (simp_all add: sampler_limit_pos)
  moreover have "js_rem (Num (uint (ds k))) (Num N) = Num (uint (ds k) mod N)"
    using assms(1) by (simp add: js_rem_nonneg del: js_rem.simps)
  ultimately show ?thesis by (simp add: generateUniformRandom_def)
qed

lemma generateUniformRandom_never:
  assumes "1 \<le> N" and "\<forall>i. 2 ^ 32 - 2 ^ 32 mod N \<le> uint (ds i)"
  shows "generateUniformRandom N ds = None"
proof -
  have "draw_loop ds (sampler_limit N) 0 = None"
    using assms by (intro draw_loop_None) (simp add: sampler_limit_pos)
  then show ?thesis by (simp add: generateUniformRandom_def)
qed

lemma generateUniformRandom_range:
  assumes "1 \<le> N" and "generateUniformRandom N ds = Some v"
  shows "\<exists>r. v = Num r \<and> 0 \<le> r \<and> r < N"
proof -
  from assms(2) obtain rand where rand: "draw_loop ds (sampler_limit N) 0 = Some rand"
    and v: "v = js_rem rand (Num N)"
    by (auto simp: generateUniformRandom_def split: option.splits)
  from draw_loop_Some [OF rand] obtain j where "rand = Num (uint (ds j))" by blast
  with v assms(1) have "v = Num (uint (ds j) mod N)"
    by (simp add: js_rem_nonneg del: js_rem.simps)
  moreover have "0 \<le> uint (ds j) mod N" "uint (ds j) mod N < N"
    using assms(1) by simp_all
  ultimately show ?thesis by blast
qed

text \<open>
  C4. For every \<open>N \<ge> 1\<close> and every sequence of 32-bit draws, the sampler's limit is
  \<open>2^32 - (2^32 mod N)\<close>; it discards every draw that is \<open>\<ge> limit\<close> and returns
  \<open>draw mod N\<close> for the first draw below the limit; when no draw is below the limit it
  never returns; and whatever it returns lies in \<open>[0, N)\<close>.
\<close>

theorem generateUniformRandom_spec:
  "1 \<le> N \<Longrightarrow>
     sampler_limit N = Num (2 ^ 32 - 2 ^ 32 mod N) \<and>
     ((\<forall>i<k. 2 ^ 32 - 2 ^ 32 mod N \<le> uint (ds i)) \<and> uint (ds k) < 2 ^ 32 - 2 ^ 32 mod N
        \<longrightarrow> generateUniformRandom N ds = Some (Num (uint (ds k) mod N))) \<and>
     ((\<forall>i. 2 ^ 32 - 2 ^ 32 mod N \<le> uint (ds i)) \<longrightarrow> generateUniformRandom N ds = None) \<and>
     (\<forall>v. generateUniformRandom N ds = Some v \<longrightarrow> (\<exists>r. v = Num r \<and> 0 \<le> r \<and> r < N))"
  using generateUniformRandom_first [of N k ds] generateUniformRandom_never [of N ds]
    generateUniformRandom_range [of N ds] sampler_limit_pos [of N]
  by blast

theorem generateUniformRandom_spec_witness:
  "sampler_limit 6 = Num 4294967292 \<and>
   generateUniformRandom 6 (draws_after 4294967295 10) = Some (Num 4)"
proof -
  have "(\<forall>i<1. (2::int) ^ 32 - 2 ^ 32 mod 6 \<le> uint (draws_after 4294967295 10 i))"
    by (simp add: draws_after_def)
  moreover have "uint (draws_after 4294967295 10 1) < 2 ^ 32 - 2 ^ 32 mod 6"
    by (simp add: draws_after_def)
  ultimately show ?thesis
    using generateUniformRandom_spec [of 6 1 "draws_after 4294967295 10"]
    by (simp add: draws_after_def)
qed

section \<open>The probability calculators\<close>

text \<open>Both pairs of nested loops count the face pairs of the Cartesian product.\<close>

lemma inner_wins:
  "fold (\<lambda>v2 wins. if js_gt v1 v2 then wins + 1 else wins) d2 w = w + length (filter (js_gt v1) d2)"
  by (induction d2 arbitrary: w) simp_all

lemma winning_pairs_Cons:
  "winning_pairs (x # xs) ys = length (filter (js_gt x) ys) + winning_pairs xs ys"
  by (simp add: winning_pairs_def comp_def)

lemma outer_wins:
  "fold (\<lambda>v1 wins. fold (\<lambda>v2 wins. if js_gt v1 v2 then wins + 1 else wins) d2 wins) d1 w
     = w + winning_pairs d1 d2"
  by (induction d1 arbitrary: w) (simp_all add: inner_wins winning_pairs_Cons, simp add: winning_pairs_def)

lemma count_wins_pairs: "count_wins d1 d2 = winning_pairs d1 d2"
  by (simp add: count_wins_def outer_wins)

lemma inner_loop:
  "fold (\<lambda>roll2 (wins, total). (if js_gt roll1 roll2 then wins + 1 else wins, Suc total)) d2 (w, t)
     = (w + length (filter (js_gt roll1) d2), t + length d2)"
  by (induction d2 arbitrary: w t) simp_all

lemma outer_loop:
  "fold (\<lambda>roll1 st. fold (\<lambda>roll2 (wins, total). (if js_gt roll1 roll2 then wins + 1 else wins, Suc total)) d2 st) d1 (w, t)
     = (w + winning_pairs d1 d2, t + length d1 * length d2)"
  by (induction d1 arbitrary: w t) (simp_all add: inner_loop winning_pairs_Cons, simp add: winning_pairs_def)

lemma probability_loop_pairs:
  "probability_loop d1 d2 = (winning_pairs d1 d2, length d1 * length d2)"
  by (simp add: probability_loop_def outer_loop)







lemma calculateProbabilities_nth:
  assumes "i < length ds" and "j < length ds"
  shows "calculateProbabilities ds ! i ! j = table_cell i (ds ! i) j (ds ! j)"
  using assms by (simp add: calculateProbabilities_def nth_enumerate_eq)

text \<open>
  C2 (as the code has it). For every sequence of dice that all have \<open>F \<ge> 1\<close> faces and
  every pair of indices \<open>i \<noteq> j\<close>: the wins that either calculator counts for
  \<open>(dice[i], dice[j])\<close> are the number of face pairs \<open>(a, b)\<close> of the Cartesian product with
  \<open>a > b\<close>, and the total is \<open>F * F\<close>; the table of game.js holds the double nearest to
  \<open>wins / total\<close> written with four decimals; the cell of the second program holds the
  fraction \<open>wins/total\<close> and, as percentage, that double times 100, rounded to a double
  again and written with two decimals.
\<close>

theorem probability_cell:
  assumes "i < length ds" and "j < length ds" and "i \<noteq> j"
    and "\<forall>d\<in>set ds. length d = F" and "0 < F"
  shows "cell_counts (ds ! i) (ds ! j) = (winning_pairs (ds ! i) (ds ! j), F * F) \<and>
         calculateProbabilities ds ! i ! j =
           VStr (toFixed 4 (round_frac (int (winning_pairs (ds ! i) (ds ! j))) (int (F * F)))) \<and>
         probability_loop (ds ! i) (ds ! j) = (winning_pairs (ds ! i) (ds ! j), F * F) \<and>
         calculateProbability (ds ! i) (ds ! j) =
           \<lparr>fraction = dec_digits (winning_pairs (ds ! i) (ds ! j)) @ ''/'' @ dec_digits (F * F),
            percentage = toFixed 2
              (js_scale (round_frac (int (winning_pairs (ds ! i) (ds ! j))) (int (F * F))) 100)\<rparr>"
proof -
  from assms have len: "length (ds ! i) = F" "length (ds ! j) = F" by simp_all
  have counts: "cell_counts (ds ! i) (ds ! j) = (winning_pairs (ds ! i) (ds ! j), F * F)"
    by (simp add: cell_counts_def count_wins_pairs len)
  have loop: "probability_loop (ds ! i) (ds ! j) = (winning_pairs (ds ! i) (ds ! j), F * F)"
    by (simp add: probability_loop_pairs len)
  have "calculateProbabilities ds ! i ! j = table_cell i (ds ! i) j (ds ! j)"
    using assms(1,2) by (rule calculateProbabilities_nth)
  also have "\<dots> = VStr (toFixed 4 (round_frac (int (winning_pairs (ds ! i) (ds ! j))) (int (F * F))))"
    using assms(3,5) by (simp add: table_cell_def counts js_div_nat_def)
  finally have cell: "calculateProbabilities ds ! i ! j =
      VStr (toFixed 4 (round_frac (int (winning_pairs (ds ! i) (ds ! j))) (int (F * F))))" .
  have prob: "calculateProbability (ds ! i) (ds ! j) =
      \<lparr>fraction = dec_digits (winning_pairs (ds ! i) (ds ! j)) @ ''/'' @ dec_digits (F * F),
       percentage = toFixed 2
         (js_scale (round_frac (int (winning_pairs (ds ! i) (ds ! j))) (int (F * F))) 100)\<rparr>"
    using assms(5) by (simp add: calculateProbability_def loop js_div_nat_def del: js_scale.simps)
  from counts cell loop prob show ?thesis by blast
qed

lemma toFixed_abs_eval:
  assumes "\<lfloor>x * 10 ^ f + 1 / 2\<rfloor> = n"
  shows "toFixed_abs f x =
     (let m = dec_digits (nat n);
          m' = (if length m \<le> f then replicate (f + 1 - length m) CHR ''0'' @ m else m);
          k = length m'
      in if f = 0 then m else take (k - f) m' @ ''.'' @ drop (k - f) m')"
  using assms by (simp add: toFixed_abs_def Let_def)

theorem probability_cell_witness:
  "cell_counts die1 die2 = (20, 36) \<and>
   calculateProbabilities [die1, die2, die3] ! 0 ! 1 = VStr ''0.5556'' \<and>
   probability_loop die1 die2 = (20, 36) \<and>
   calculateProbability die1 die2 = \<lparr>fraction = ''20/36'', percentage = ''55.56''\<rparr>"
proof -
  have w: "winning_pairs die1 die2 = 20" by code_simp
  have q: "round_frac 20 36 = Quot (2501999792983609 / 4503599627370496)" by code_simp
  have p: "js_scale (Quot (2501999792983609 / 4503599627370496)) 100 =
      Quot (3909374676536889 / 70368744177664)" by code_simp
  have "\<lfloor>(2501999792983609 / 4503599627370496 :: rat) * 10 ^ 4 + 1 / 2\<rfloor> = 5556"
    by (rule floor_unique) simp_all
  then have f4: "toFixed_abs 4 (2501999792983609 / 4503599627370496) = ''0.5556''"
    by (simp add: toFixed_abs_eval dec_eval)
  have "\<lfloor>(3909374676536889 / 70368744177664 :: rat) * 10 ^ 2 + 1 / 2\<rfloor> = 5556"
    by (rule floor_unique) simp_all
  then have f2: "toFixed_abs 2 (3909374676536889 / 70368744177664) = ''55.56''"
    by (simp add: toFixed_abs_eval dec_eval)
  have d1: "dec_digits 20 = ''20''" by (simp add: dec_eval)
  have d2: "dec_digits 36 = ''36''" by (simp add: dec_eval)
  have h: "\<forall>d\<in>set [die1, die2, die3]. length d = 6"
    by (simp add: die1_def die2_def die3_def)
  from probability_cell [of 0 "[die1, die2, die3]" 1 6] h
  show ?thesis by (simp add: w q p f4 f2 d1 d2 del: js_scale.simps)
qed

text \<open>
  The percentage is not always \<open>100 * wins / (F * F)\<close> written with two decimals: with
  \<open>F = 40\<close> and 58 wins that value is 3.625, written 3.63, but the double nearest to
  \<open>58 / 1600\<close> times 100 is just below 3.625 and the second program prints 3.62.
\<close>

theorem percentage_rounding_counterexample:
  "length die40a = 40 \<and> length die40b = 40 \<and>
   probability_loop die40a die40b = (58, 40 * 40) \<and>
   percentage (calculateProbability die40a die40b) = ''3.62'' \<and>
   toFixed 2 (Quot (100 * 58 / (40 * 40))) = ''3.63''"
proof -
  have loop: "probability_loop die40a die40b = (58, 1600)" by code_simp
  have q: "js_div_nat 58 1600 = Quot (5224175567749775 / 144115188075855872)" by code_simp
  have p: "js_scale (Quot (5224175567749775 / 144115188075855872)) 100 =
      Quot (8162774324609023 / 2251799813685248)" by code_simp
  have "\<lfloor>(8162774324609023 / 2251799813685248 :: rat) * 10 ^ 2 + 1 / 2\<rfloor> = 362"
    by (rule floor_unique) simp_all
  then have code: "toFixed_abs 2 (8162774324609023 / 2251799813685248) = ''3.62''"
    by (simp add: toFixed_abs_eval dec_eval)
  have "\<lfloor>(100 * 58 / (40 * 40) :: rat) * 10 ^ 2 + 1 / 2\<rfloor> = 363"
    by (rule floor_unique) simp_all
  then have exact: "toFixed_abs 2 (100 * 58 / (40 * 40)) = ''3.63''"
    by (simp add: toFixed_abs_eval dec_eval)
  have "percentage (calculateProbability die40a die40b) = ''3.62''"
    by (simp add: calculateProbability_def loop q p code del: js_scale.simps)
  moreover have "toFixed 2 (Quot (100 * 58 / (40 * 40))) = ''3.63''"
    using exact by simp
  ultimately show ?thesis
    using loop by (simp add: die40a_def die40b_def)
qed



text \<open>
  C10. The nested \<^verbatim>\<open>forEach\<close> counting of game.js and the nested \<^verbatim>\<open>for ... of\<close> counting
  of the second program compute the same wins and the same total, for every pair of dice.
\<close>

theorem calculators_agree:
  "cell_counts d1 d2 = probability_loop d1 d2"
  by (simp add: cell_counts_def count_wins_pairs probability_loop_pairs)

section \<open>Sessions: range and commitment\<close>

lemma digit_char_inj:
  assumes "d < 16" and "e < 16" and "digit_char d = digit_char e"
  shows "d = e"
proof -
  have "distinct ''0123456789abcdef''" by simp
  moreover have "d < length ''0123456789abcdef''" "e < length ''0123456789abcdef''"
    using assms by simp_all
  ultimately show ?thesis
    using assms(3) unfolding digit_char_def by (simp only: nth_eq_iff_index_eq)
qed

lemma hex_byte_inj:
  assumes "hex_byte a = hex_byte b"
  shows "a = b"
proof -
  have la: "unat a < 256" using unsigned_less [of a] by simp
  have lb: "unat b < 256" using unsigned_less [of b] by simp
  from assms have "digit_char (unat a div 16) = digit_char (unat b div 16)"
    and "digit_char (unat a mod 16) = digit_char (unat b mod 16)"
    by (simp_all add: hex_byte_def)
  with la lb have "unat a div 16 = unat b div 16" and "unat a mod 16 = unat b mod 16"
    by (auto intro!: digit_char_inj simp: less_mult_imp_div_less)
  then have "unat a = unat b"
    by (metis div_mult_mod_eq)
  then show ?thesis by (simp add: word_unat_eq_iff)
qed

lemma hex_inj: "hex a = hex b \<Longrightarrow> a = b"
proof (induction a arbitrary: b)
  case Nil
  then show ?case by (cases b) (simp_all add: hex_def hex_byte_def)
next
  case (Cons x xs)
  show ?case
  proof (cases b)
    case Nil
    with Cons.prems show ?thesis by (simp add: hex_def hex_byte_def)
  next
    case (Cons y ys)
    with Cons.prems have "hex_byte x @ hex xs = hex_byte y @ hex ys" by (simp add: hex_def)
    moreover have "length (hex_byte x) = length (hex_byte y)" by (simp add: hex_byte_def)
    ultimately have "hex_byte x = hex_byte y" and "hex xs = hex ys" by simp_all
    with Cons.IH [of ys] hex_byte_inj show ?thesis using Cons by simp
  qed
qed

lemma js_rem_neg_divisor: "js_rem a (Num (- b)) = js_rem a (Num b)"
  by (cases a) simp_all

lemma sampler_limit_neg: "sampler_limit (- N) = sampler_limit N"
  by (simp add: sampler_limit_def)

lemma generateUniformRandom_neg: "generateUniformRandom (- N) ds = generateUniformRandom N ds"
  by (cases "draw_loop ds (sampler_limit N) 0")
    (simp_all add: generateUniformRandom_def sampler_limit_neg js_rem_neg_divisor del: js_rem.simps)

lemma generateUniformRandom_zero: "generateUniformRandom 0 ds = Some NaN"
  by (simp add: generateUniformRandom_def sampler_limit_def draw_loop_accept)


text \<open>
  C5 (as the code has it). For \<open>N < 1\<close> creating a session does not fail: there is no
  range check. For \<open>N = 0\<close> the limit is \<^verbatim>\<open>NaN\<close>, the first draw is accepted and the
  committed value is \<^verbatim>\<open>NaN\<close>. For \<open>N < 0\<close> the sampler behaves as for \<open>-N\<close>: the session
  is the one created over \<open>-N\<close> but for its \<open>rangeMax\<close>, and its value lies in \<open>[0, -N)\<close>.
\<close>

theorem new_FairRandom_below_one:
  "N < 1 \<Longrightarrow>
     (N = 0 \<longrightarrow> new_FairRandom hm k ds N =
        Some \<lparr>rangeMax = 0, key = k, secret = NaN, hmac = calculateHMAC hm k NaN\<rparr>) \<and>
     (N < 0 \<longrightarrow>
        generateUniformRandom N ds = generateUniformRandom (- N) ds \<and>
        new_FairRandom hm k ds N =
          map_option (\<lambda>s. s\<lparr>rangeMax := N\<rparr>) (new_FairRandom hm k ds (- N)) \<and>
        (\<forall>v. generateUniformRandom N ds = Some v \<longrightarrow> (\<exists>r. v = Num r \<and> 0 \<le> r \<and> r < - N)))"
proof (intro conjI impI)
  assume "N = 0"
  then show "new_FairRandom hm k ds N =
      Some \<lparr>rangeMax = 0, key = k, secret = NaN, hmac = calculateHMAC hm k NaN\<rparr>"
    by (simp add: new_FairRandom_def generateUniformRandom_zero)
next
  show eq: "generateUniformRandom N ds = generateUniformRandom (- N) ds"
    using generateUniformRandom_neg [of "- N" ds] by simp
  then show "new_FairRandom hm k ds N =
      map_option (\<lambda>s. s\<lparr>rangeMax := N\<rparr>) (new_FairRandom hm k ds (- N))"
    by (cases "generateUniformRandom (- N) ds") (simp_all add: new_FairRandom_def)
  assume "N < 0"
  then have "1 \<le> - N" by simp
  then show "\<forall>v. generateUniformRandom N ds = Some v \<longrightarrow> (\<exists>r. v = Num r \<and> 0 \<le> r \<and> r < - N)"
    using generateUniformRandom_range [of "- N" ds] eq by simp
qed

theorem new_FairRandom_below_one_witness:
  "generateUniformRandom (- 3) (fixed_draws 5) = Some (Num 2) \<and>
   new_FairRandom concat_hmac [] (fixed_draws 5) 0 =
     Some \<lparr>rangeMax = 0, key = [], secret = NaN, hmac = ''4e614e''\<rparr>"
proof -
  have "generateUniformRandom 3 (fixed_draws 5) = Some (Num (uint (fixed_draws 5 0) mod 3))"
    by (rule generateUniformRandom_first) (simp_all add: fixed_draws_def)
  then have three: "generateUniformRandom 3 (fixed_draws 5) = Some (Num 2)"
    by (simp add: fixed_draws_def)
  have h: "calculateHMAC concat_hmac [] NaN = ''4e614e''"
    by (simp add: calculateHMAC_def concat_hmac_def str_bytes_def hex_def hex_byte_def digit_char_def)
  from new_FairRandom_below_one [of "- 3" concat_hmac "[]" "fixed_draws 5"]
    new_FairRandom_below_one [of 0 concat_hmac "[]" "fixed_draws 5"] three h
  show ?thesis by simp
qed

theorem invalid_range_counterexample:
  "map_option secret (new_FairRandom concat_hmac [] (fixed_draws 5) (- 3)) = Some (Num 2) \<and>
   map_option secret (new_FairRandom concat_hmac [] (fixed_draws 5) 0) = Some NaN"
proof -
  have "draw_loop (fixed_draws 5) (sampler_limit (- 3)) 0 = Some (Num 5)"
    by (subst draw_loop.simps) (simp add: sampler_limit_def fixed_draws_def)
  then have "generateUniformRandom (- 3) (fixed_draws 5) = Some (Num 2)"
    by (simp add: generateUniformRandom_def)
  moreover have "draw_loop (fixed_draws 5) (sampler_limit 0) 0 = Some (Num 5)"
    by (subst draw_loop.simps) (simp add: sampler_limit_def fixed_draws_def)
  then have "generateUniformRandom 0 (fixed_draws 5) = Some NaN"
    by (simp add: generateUniformRandom_def)
  ultimately show ?thesis by (simp add: new_FairRandom_def)
qed

text \<open>
  C6. The digest a session publishes is the keyed hash of the key and the value it
  stores and later reveals, and of nothing else: recomputing the commitment from the
  revealed key and value gives the published digest, so comparing the two for equality
  succeeds; two sessions
  with the same key and the same value publish the same digest, whatever their range and
  draws; the key revealed in hexadecimal determines the key. The same holds for the
  digest of \<^verbatim>\<open>generateSecureValue\<close> in the second program.
\<close>

theorem commitment_verifies:
  "(new_FairRandom hm k ds N = Some s \<longrightarrow>
      key s = k \<and> getValue s = secret s \<and>
      calculateHMAC hm (key s) (getValue s) = hmac s) \<and>
   (new_FairRandom hm k ds N = Some s \<and> new_FairRandom hm k ds' N' = Some s' \<and>
      getValue s = getValue s' \<longrightarrow> hmac s = hmac s') \<and>
   (revealKey s = revealKey s' \<longrightarrow> key s = key s') \<and>
   snd (generateSecureValue hm k x) = generateHMAC hm k (fst (generateSecureValue hm k x))"
proof -
  have created: "key t = k' \<and> hmac t = calculateHMAC hm k' (getValue t)"
    if "new_FairRandom hm k' dr M = Some t" for t k' dr M
    using that by (auto simp: new_FairRandom_def getValue_def split: option.splits)
  have "revealKey s = revealKey s' \<longrightarrow> key s = key s'"
    by (auto simp: revealKey_def dest: hex_inj)
  moreover have "snd (generateSecureValue hm k x) = generateHMAC hm k (fst (generateSecureValue hm k x))"
    by (simp add: generateSecureValue_def)
  ultimately show ?thesis
    using created [of k ds N s] created [of k ds' N' s'] by (auto simp: getValue_def)
qed

theorem commitment_verifies_witness:
  "new_FairRandom concat_hmac [1, 2] (fixed_draws 3) 6 =
     Some \<lparr>rangeMax = 6, key = [1, 2], secret = Num 3, hmac = ''010233''\<rparr> \<and>
   calculateHMAC concat_hmac [1, 2] (Num 3) = ''010233''"
proof -
  have "generateUniformRandom 6 (fixed_draws 3) = Some (Num (uint (fixed_draws 3 0) mod 6))"
    by (rule generateUniformRandom_first) (simp_all add: fixed_draws_def)
  then have g: "generateUniformRandom 6 (fixed_draws 3) = Some (Num 3)"
    by (simp add: fixed_draws_def)
  have h: "calculateHMAC concat_hmac [1, 2] (Num 3) = ''010233''"
    by (simp add: calculateHMAC_def concat_hmac_def str_bytes_def hex_def hex_byte_def dec_eval)
  have s: "new_FairRandom concat_hmac [1, 2] (fixed_draws 3) 6 =
      Some \<lparr>rangeMax = 6, key = [1, 2], secret = Num 3, hmac = ''010233''\<rparr>"
    by (simp add: new_FairRandom_def g h)
  from commitment_verifies [of concat_hmac "[1, 2]" "fixed_draws 3" 6
      "\<lparr>rangeMax = 6, key = [1, 2], secret = Num 3, hmac = ''010233''\<rparr>"] s
  show ?thesis by (simp add: getValue_def)
qed

section \<open>Throws and turn order\<close>

lemma and_then_emit [simp]: "and_then (emit evs) f = (evs @ fst (f ()), snd (f ()))"
  by (simp add: and_then_def emit_def)

lemma and_then_Returned:
  "m = (ev, Returned a) \<Longrightarrow> and_then m f = (ev @ fst (f a), snd (f a))"
  by (simp add: and_then_def)

lemma and_then_prefix: "\<exists>post. fst (and_then m f) = fst m @ post"
  by (cases "snd m") (simp_all add: and_then_def)

lemma ret_simps [simp]: "fst (ret x) = []" "snd (ret x) = Returned x"
  by (simp_all add: ret_def)

lemma throw_with_result:
  assumes "generateUniformRandom (int (length d)) dr = Some (Num v)"
    and "getUserInput ds (throw_prompt (length d)) (keys (length d)) ls = (ev, Returned (u, rest))"
    and "0 \<le> u" and "0 \<le> v"
  shows "throw_with hm ds (Some d) k dr ls =
           (LogCommit (Num (int (length d) - 1)) (calculateHMAC hm k (Num v)) # ev @
              [LogReveal (Num v) (hex k),
               LogResult u (Num v) (Num ((u + v) mod int (length d))) (int (length d))],
            Returned (roll d (Num ((u + v) mod int (length d))), rest))"
proof -
  have F: "int (length d) \<noteq> 0"
  proof
    assume "int (length d) = 0"
    then have "generateUniformRandom (int (length d)) dr = Some NaN"
      by (simp add: generateUniformRandom_zero)
    with assms(1) show False by simp
  qed
  have rem: "js_rem (js_add (Num u) (Num v)) (Num (int (length d))) = Num ((u + v) mod int (length d))"
    using assms(3,4) F by (simp add: js_rem_nonneg del: js_rem.simps)
  show ?thesis
    using assms(1) F
    by (simp add: throw_with_def new_FairRandom_def and_then_Returned [OF assms(2)]
        getValue_def revealKey_def rem Let_def del: js_rem.simps js_add.simps toString.simps)
qed



lemma getUserInput_accept:
  assumes "toLowerCase (trim l) \<noteq> ''x''" and "toLowerCase (trim l) \<noteq> ''?''"
    and "parseInt10 (trim l) = Num n" and "n \<in> set valid"
  shows "getUserInput ds p valid (l # ls) = ([Prompt p, Answer l, InputReceived n], Returned (n, ls))"
  using assms by (simp add: Let_def getUserInput.simps)

text \<open>
  C1. For a die \<open>d\<close> with \<open>F\<close> faces, a committed value \<open>v\<close> in \<open>[0, F)\<close> and an accepted
  user input \<open>u\<close> in \<open>[0, F)\<close>, the throw logs and uses the combined result
  \<open>(u + v) mod F\<close>, which lies in \<open>[0, F)\<close>, and returns the face of \<open>d\<close> at that index;
  \<^verbatim>\<open>userThrow\<close> does so with the user's die and \<^verbatim>\<open>computerThrow\<close> with the computer's.
\<close>

theorem throw_combined_result:
  assumes "length d = F"
    and "generateUniformRandom (int F) dr = Some (Num v)" and "0 \<le> v" and "v < int F"
    and "getUserInput (dice g) (throw_prompt F) (keys F) ls = (ev, Returned (u, rest))"
    and "0 \<le> u" and "u < int F"
  shows "0 \<le> (u + v) mod int F \<and> (u + v) mod int F < int F \<and>
         (userDice g = Some d \<longrightarrow>
            userThrow hm g k dr ls =
              (LogCommit (Num (int F - 1)) (calculateHMAC hm k (Num v)) # ev @
                 [LogReveal (Num v) (hex k), LogResult u (Num v) (Num ((u + v) mod int F)) (int F)],
               Returned (Some (d ! nat ((u + v) mod int F)), rest))) \<and>
         (computerDice g = Some d \<longrightarrow>
            computerThrow hm g k dr ls =
              (LogCommit (Num (int F - 1)) (calculateHMAC hm k (Num v)) # ev @
                 [LogReveal (Num v) (hex k), LogResult u (Num v) (Num ((u + v) mod int F)) (int F)],
               Returned (Some (d ! nat ((u + v) mod int F)), rest)))"
proof -
  from assms(3,4) have pos: "0 < int F" by simp
  then have range: "0 \<le> (u + v) mod int F" "(u + v) mod int F < int F" by simp_all
  with assms(1) have face: "roll d (Num ((u + v) mod int F)) = Some (d ! nat ((u + v) mod int F))"
    by simp
  have "throw_with hm (dice g) (Some d) k dr ls =
      (LogCommit (Num (int F - 1)) (calculateHMAC hm k (Num v)) # ev @
         [LogReveal (Num v) (hex k), LogResult u (Num v) (Num ((u + v) mod int F)) (int F)],
       Returned (Some (d ! nat ((u + v) mod int F)), rest))"
    using throw_with_result [of d dr v "dice g" ls ev u rest hm k] assms face
    by (simp del: roll.simps)
  with range show ?thesis by (simp add: userThrow_def computerThrow_def)
qed

theorem throw_combined_result_witness:
  "userThrow concat_hmac example_game [7] (fixed_draws 3) [''4''] =
     ([LogCommit (Num 5) ''0733'', Prompt ''Add your number modulo 6: '', Answer ''4'',
       InputReceived 4, LogReveal (Num 3) ''07'', LogResult 4 (Num 3) (Num 1) 6],
      Returned (Some (Num 2), []))"
proof -
  have len: "length die1 = 6" by (simp add: die1_def)
  have "generateUniformRandom (int 6) (fixed_draws 3) = Some (Num (uint (fixed_draws 3 0) mod int 6))"
    by (rule generateUniformRandom_first) (simp_all add: fixed_draws_def)
  then have g: "generateUniformRandom (int 6) (fixed_draws 3) = Some (Num 3)"
    by (simp add: fixed_draws_def)
  have inp: "getUserInput (dice example_game) (throw_prompt 6) (keys 6) [''4''] =
      ([Prompt ''Add your number modulo 6: '', Answer ''4'', InputReceived 4], Returned (4, []))"
    by code_simp
  have h: "calculateHMAC concat_hmac [7] (Num 3) = ''0733''"
    by (simp add: calculateHMAC_def concat_hmac_def str_bytes_def hex_def hex_byte_def dec_eval)
  have k: "hex [7] = ''07''"
    by (simp add: hex_def hex_byte_def dec_eval)
  have u: "userDice example_game = Some die1" by (simp add: example_game_def)
  have f: "die1 ! Suc 0 = Num 2" by (simp add: die1_def)
  from throw_combined_result [OF len g _ _ inp, of concat_hmac "[7]"] u
  show ?thesis by (simp add: h k f)
qed

lemma getUserInput_zero:
  "getUserInput ds p [0, 1] (''0'' # rest) =
     ([Prompt p, Answer ''0'', InputReceived 0], Returned (0, rest))"
proof -
  have "trim ''0'' = ''0''" by code_simp
  moreover have "toLowerCase ''0'' = ''0''" by code_simp
  moreover have "parseInt10 ''0'' = Num 0" by code_simp
  ultimately show ?thesis by (intro getUserInput_accept) simp_all
qed

text \<open>
  C8. In the turn-order decision (range 2) with committed value 1 and the guess \<open>0\<close>:
  \<open>(0 + 1) mod 2 = 1\<close>, the guess does not match (\<^verbatim>\<open>userFirst\<close> is false), and the game
  reports ``I make the first move!'' right after the revelation; the second program
  resolves the turn order to \<^verbatim>\<open>'computer'\<close>.
\<close>

theorem turn_order_computer_first:
  assumes "generateUniformRandom 2 (turn_draws rnd) = Some (Num 1)"
  shows "js_rem (js_add (Num 0) (Num 1)) (Num 2) = Num 1 \<and>
         turn_order hm g rnd (''0'' # rest) =
           ([Log ''Let's determine who makes the first move.'',
             LogCommit (Num 1) (calculateHMAC hm (turn_key rnd) (Num 1)),
             Prompt ''Try to guess my selection (0 or 1): '', Answer ''0'', InputReceived 0,
             LogReveal (Num 1) (hex (turn_key rnd))],
            Returned (False, rest)) \<and>
         (\<exists>post r. start hm g rnd (''0'' # rest) =
            (fst (turn_order hm g rnd (''0'' # rest)) @ Log ''I make the first move!'' # post, r)) \<and>
         snd (determineTurnOrder hm k 1 (''0'' # rest)) = Returned ''computer''"
proof -
  have t: "turn_order hm g rnd (''0'' # rest) =
           ([Log ''Let's determine who makes the first move.'',
             LogCommit (Num 1) (calculateHMAC hm (turn_key rnd) (Num 1)),
             Prompt ''Try to guess my selection (0 or 1): '', Answer ''0'', InputReceived 0,
             LogReveal (Num 1) (hex (turn_key rnd))],
            Returned (False, rest))"
    using assms
    by (simp add: turn_order_def new_FairRandom_def and_then_Returned [OF getUserInput_zero]
        getValue_def revealKey_def)
  have s: "select_dice False g rnd rest =
      (Log ''I make the first move!'' #
         fst (and_then (computerSelectDice g (pick_index rnd)) (\<lambda>g1. userSelectDice g1 rest)),
       snd (and_then (computerSelectDice g (pick_index rnd)) (\<lambda>g1. userSelectDice g1 rest)))"
    by (simp add: select_dice_def)
  define K where "K = (\<lambda>(g2, l2). and_then (emit [Log ''Let's roll!''])
             (\<lambda>_. and_then (computerThrow hm g2 (cthrow_key rnd) (cthrow_draws rnd) l2)
                (\<lambda>(computerRoll, l3). and_then (userThrow hm g2 (uthrow_key rnd) (uthrow_draws rnd) l3)
                   (\<lambda>(userRoll, l4). declareWinner userRoll computerRoll))))"
  have st: "start hm g rnd (''0'' # rest) =
      and_then (turn_order hm g rnd (''0'' # rest))
        (\<lambda>(userFirst, l1). and_then (select_dice userFirst g rnd l1) K)"
    by (simp add: start_def K_def)
  obtain post where "fst (and_then (select_dice False g rnd rest) K) =
      fst (select_dice False g rnd rest) @ post"
    using and_then_prefix by blast
  then have "fst (and_then (select_dice False g rnd rest) K) =
      Log ''I make the first move!'' #
        (fst (and_then (computerSelectDice g (pick_index rnd)) (\<lambda>g1. userSelectDice g1 rest)) @ post)"
    by (simp add: s)
  then have "\<exists>post r. start hm g rnd (''0'' # rest) =
      (fst (turn_order hm g rnd (''0'' # rest)) @ Log ''I make the first move!'' # post, r)"
    unfolding st and_then_Returned [OF t] by (simp add: t)
  moreover have "parseInt_auto ''0'' = Num 0" by code_simp
  then have "snd (determineTurnOrder hm k 1 (''0'' # rest)) = Returned ''computer''"
    by (simp add: determineTurnOrder_def generateSecureValue_def)
  ultimately show ?thesis using t by simp
qed

theorem turn_order_computer_first_witness:
  "turn_order concat_hmac (new_DiceGame [die1, die2, die3]) example_randomness [''0''] =
     ([Log ''Let's determine who makes the first move.'', LogCommit (Num 1) ''010231'',
       Prompt ''Try to guess my selection (0 or 1): '', Answer ''0'', InputReceived 0,
       LogReveal (Num 1) ''0102''],
      Returned (False, []))"
proof -
  have "generateUniformRandom 2 (fixed_draws 1) = Some (Num (uint (fixed_draws 1 0) mod 2))"
    by (rule generateUniformRandom_first) (simp_all add: fixed_draws_def)
  then have g: "generateUniformRandom 2 (turn_draws example_randomness) = Some (Num 1)"
    by (simp add: fixed_draws_def example_randomness_def)
  have h: "calculateHMAC concat_hmac (turn_key example_randomness) (Num 1) = ''010231''"
    by (simp add: calculateHMAC_def concat_hmac_def str_bytes_def hex_def hex_byte_def dec_eval
        example_randomness_def)
  have k: "hex (turn_key example_randomness) = ''0102''"
    by (simp add: hex_def hex_byte_def dec_eval example_randomness_def)
  from turn_order_computer_first [OF g, of concat_hmac "new_DiceGame [die1, die2, die3]" "[]"]
  show ?thesis by (simp add: h k)
qed

section \<open>Revelation comes after the input\<close>

lemma phases_append:
  "phases p (a @ b) = (case phases p a of None \<Rightarrow> None | Some q \<Rightarrow> phases q b)"
  by (induction a arbitrary: p) (simp_all split: option.splits)

lemma legal_and_then:
  assumes "\<And>p. phases p (fst m) \<noteq> None" and "\<And>a p. phases p (fst (f a)) \<noteq> None"
  shows "phases p (fst (and_then m f)) \<noteq> None"
  using assms
  by (cases "snd m") (auto simp: and_then_def phases_append split: option.splits)

lemma legal_emit:
  "\<forall>e\<in>set evs. \<forall>v k. e \<noteq> LogReveal v k \<Longrightarrow> phases p (fst (emit evs)) \<noteq> None"
proof (induction evs arbitrary: p)
  case Nil
  show ?case by (simp add: emit_def)
next
  case (Cons e es)
  then have "phases q (fst (emit es)) \<noteq> None" for q by simp
  moreover from Cons.prems obtain q where "phase_step p e = Some q"
    by (cases e) simp_all
  ultimately show ?case by (simp add: emit_def)
qed

text \<open>
  Reading a number reveals nothing; when it returns, a session that was committed has
  received its input.
\<close>

lemma getUserInput_phases:
  "phases p (fst (getUserInput ds pr valid ls)) =
     Some (case snd (getUserInput ds pr valid ls) of
             Returned _ \<Rightarrow> if p = Committed then Received else p
           | _ \<Rightarrow> p)"
  by (induction ls) (auto simp: getUserInput.simps Let_def split: jsnum.splits)

lemma legal_getUserInput: "phases p (fst (getUserInput ds pr valid ls)) \<noteq> None"
  by (simp add: getUserInput_phases)

lemma legal_commit_input_reveal:
  "phases p (fst (and_then (emit [LogCommit hi h])
     (\<lambda>_. and_then (getUserInput ds pr valid ls)
        (\<lambda>x. and_then (emit (LogReveal v k # evs x)) (\<lambda>_. ret (res x)))))) \<noteq> None"
  if "\<And>x. \<forall>e\<in>set (evs x). \<forall>v k. e \<noteq> LogReveal v k"
proof -
  have "phases q (evs x) \<noteq> None" for q x
    using legal_emit [OF that, of q x] by (simp add: emit_def)
  then show ?thesis
    by (cases "snd (getUserInput ds pr valid ls)")
      (simp_all add: and_then_def emit_def ret_def phases_append getUserInput_phases)
qed


lemma legal_throw_with: "phases p (fst (throw_with hm ds die k dr ls)) \<noteq> None"
proof (cases die)
  case None
  then show ?thesis by (simp add: throw_with_def)
next
  case (Some d)
  show ?thesis
  proof (cases "new_FairRandom hm k dr (int (length d))")
    case None
    with Some show ?thesis by (simp add: throw_with_def)
  next
    case (Some fairness)
    have "phases p (fst (and_then (emit [LogCommit (Num (int (length d) - 1)) (hmac fairness)])
       (\<lambda>_. and_then (getUserInput ds (throw_prompt (length d)) (keys (length d)) ls)
          (\<lambda>x. and_then (emit (LogReveal (getValue fairness) (revealKey fairness) #
                    [LogResult (fst x) (getValue fairness)
                       (js_rem (js_add (Num (fst x)) (getValue fairness)) (Num (int (length d))))
                       (int (length d))]))
                 (\<lambda>_. ret (roll d (js_rem (js_add (Num (fst x)) (getValue fairness))
                                   (Num (int (length d)))), snd x)))))) \<noteq> None"
      by (rule legal_commit_input_reveal) simp
    with Some \<open>die = Some d\<close> show ?thesis
      by (simp add: throw_with_def Let_def split_def del: js_rem.simps js_add.simps roll.simps)
  qed
qed

lemma legal_turn_order: "phases p (fst (turn_order hm g rnd ls)) \<noteq> None"
proof (cases "new_FairRandom hm (turn_key rnd) (turn_draws rnd) 2")
  case None
  then show ?thesis by (simp add: turn_order_def)
next
  case (Some fairness)
  have "phases q (fst (and_then (emit [LogCommit (Num 1) (hmac fairness)])
       (\<lambda>_. and_then (getUserInput (dice g) ''Try to guess my selection (0 or 1): '' [0, 1] ls)
          (\<lambda>x. and_then (emit (LogReveal (getValue fairness) (revealKey fairness) # []))
                 (\<lambda>_. ret (js_seq (Num (fst x)) (getValue fairness), snd x)))))) \<noteq> None" for q
    by (rule legal_commit_input_reveal) simp
  with Some show ?thesis
    by (simp add: turn_order_def Let_def split_def del: js_seq.simps)
qed

lemma legal_userSelectDice: "phases p (fst (userSelectDice g ls)) \<noteq> None"
  unfolding userSelectDice_def
  by (intro legal_and_then legal_emit legal_getUserInput) (auto simp: split_def Let_def)

lemma legal_computerSelectDice: "phases p (fst (computerSelectDice g pick)) \<noteq> None"
  by (simp add: computerSelectDice_def Let_def split_def split: option.splits)

lemma legal_select_dice: "phases p (fst (select_dice userFirst g rnd ls)) \<noteq> None"
proof -
  have a: "phases q (fst (and_then (userSelectDice g ls)
             (\<lambda>x. and_then (computerSelectDice (fst x) (pick_index rnd)) (\<lambda>g2. ret (g2, snd x))))) \<noteq> None" for q
    by (intro legal_and_then legal_userSelectDice legal_computerSelectDice) simp
  have b: "phases q (fst (and_then (computerSelectDice g (pick_index rnd))
             (\<lambda>g1. userSelectDice g1 ls))) \<noteq> None" for q
    by (intro legal_and_then legal_userSelectDice legal_computerSelectDice)
  from a b show ?thesis by (simp add: select_dice_def split_def)
qed

lemma legal_declareWinner: "phases p (fst (declareWinner userRoll computerRoll)) \<noteq> None"
  by (simp add: declareWinner_def emit_def)

lemma legal_start: "phases p (fst (start hm g rnd ls)) \<noteq> None"
  unfolding start_def split_def userThrow_def computerThrow_def
  by (intro legal_and_then legal_turn_order legal_select_dice legal_throw_with
      legal_declareWinner legal_emit) simp


lemma received_after_commit:
  assumes "phases p tr = Some Received"
  shows "p = Received \<or>
         (p = Committed \<and> (\<exists>b n c. tr = b @ InputReceived n # c)) \<or>
         (\<exists>a hi h b n c. tr = a @ LogCommit hi h # b @ InputReceived n # c)"
  using assms
proof (induction tr arbitrary: p)
  case Nil
  then show ?case by simp
next
  case (Cons e es)
  then obtain q where q: "phase_step p e = Some q" and es: "phases q es = Some Received"
    by (auto split: option.splits)
  from Cons.IH [OF es] consider
      (a) "q = Received"
    | (b) b n c where "q = Committed" "es = b @ InputReceived n # c"
    | (c) a hi h b n c where "es = a @ LogCommit hi h # b @ InputReceived n # c"
    by blast
  then show ?case
  proof cases
    case a
    with q have "p = Received \<or> (p = Committed \<and> (\<exists>n. e = InputReceived n))"
      by (cases e) (auto split: if_splits)
    then show ?thesis
    proof
      assume "p = Received"
      then show ?thesis by simp
    next
      assume "p = Committed \<and> (\<exists>n. e = InputReceived n)"
      then obtain n where "p = Committed" "e # es = [] @ InputReceived n # es" by auto
      then show ?thesis by blast
    qed
  next
    case b
    with q have "(\<exists>hi h. e = LogCommit hi h) \<or> p = Committed"
      by (cases e) (auto split: if_splits)
    then show ?thesis
    proof
      assume "\<exists>hi h. e = LogCommit hi h"
      then obtain hi h where "e # es = [] @ LogCommit hi h # b @ InputReceived n # c"
        using b by auto
      then show ?thesis by blast
    next
      assume "p = Committed"
      moreover have "e # es = (e # b) @ InputReceived n # c" using b by simp
      ultimately show ?thesis by blast
    qed
  next
    case c
    then have "e # es = (e # a) @ LogCommit hi h # b @ InputReceived n # c" by simp
    then show ?thesis by blast
  qed
qed

lemma reveal_needs_input:
  assumes "phases Idle tr \<noteq> None" and "tr = pre @ LogReveal v kx # post"
  shows "\<exists>a hi h b n c. pre = a @ LogCommit hi h # b @ InputReceived n # c"
proof -
  from assms obtain q where q: "phases Idle pre = Some q" and "phases q (LogReveal v kx # post) \<noteq> None"
    by (auto simp: phases_append split: option.splits)
  then have "q = Received" by (auto split: if_splits)
  with q received_after_commit [of Idle pre] show ?thesis by simp
qed

text \<open>
  C3. In every run of \<^verbatim>\<open>start\<close>, of \<^verbatim>\<open>userThrow\<close> and of \<^verbatim>\<open>computerThrow\<close>, whatever the
  randomness and whatever the user types, every line that reveals a session's value and
  key comes after that session's commitment and after the user's number for it has been
  received: the console trace is legal for the phase automaton, and what precedes a
  revelation contains a commitment followed by a received input.
\<close>

theorem reveal_only_after_input:
  "reveal_after_input (fst (start hm g rnd ls)) \<and>
   reveal_after_input (fst (userThrow hm g k dr ls)) \<and>
   reveal_after_input (fst (computerThrow hm g k dr ls)) \<and>
   (\<forall>pre v kx post. fst (start hm g rnd ls) = pre @ LogReveal v kx # post \<longrightarrow>
      (\<exists>a hi h b n c. pre = a @ LogCommit hi h # b @ InputReceived n # c))"
proof -
  have s: "phases Idle (fst (start hm g rnd ls)) \<noteq> None"
    by (rule legal_start)
  have "\<exists>a hi h b n c. pre = a @ LogCommit hi h # b @ InputReceived n # c"
    if "fst (start hm g rnd ls) = pre @ LogReveal v kx # post" for pre v kx post
    using s that by (rule reveal_needs_input)
  then show ?thesis
    using s legal_throw_with [of Idle hm "dice g" _ k dr ls]
    by (simp add: reveal_after_input_def userThrow_def computerThrow_def)
qed


theorem reveal_only_after_input_witness:
  "reveal_after_input (fst (start concat_hmac (new_DiceGame [die1, die2, die3]) example_randomness
      [''0'', ''1'', ''4'', ''2''])) \<and>
   fst (start concat_hmac (new_DiceGame [die1, die2, die3]) example_randomness
      [''0'', ''1'', ''4'', ''2'']) =
     [Log ''Let's determine who makes the first move.'', LogCommit (Num 1) ''010231'',
      Prompt ''Try to guess my selection (0 or 1): '', Answer ''0'', InputReceived 0,
      LogReveal (Num 1) ''0102'', Log ''I make the first move!'',
      LogChoice [Num 2, Num 2, Num 4, Num 4, Num 9, Num 9], Log ''Choose your dice:'',
      LogDie 0 [Num 1, Num 1, Num 6, Num 6, Num 8, Num 8],
      LogDie 1 [Num 7, Num 5, Num 3, Num 7, Num 5, Num 3],
      Prompt ''Your selection: '', Answer ''1'', InputReceived 1, Log ''Let's roll!'',
      LogCommit (Num 5) ''0333'', Prompt ''Add your number modulo 6: '', Answer ''4'',
      InputReceived 4, LogReveal (Num 3) ''03'', LogResult 4 (Num 3) (Num 1) 6,
      LogCommit (Num 5) ''0433'', Prompt ''Add your number modulo 6: '', Answer ''2'',
      InputReceived 2, LogReveal (Num 3) ''04'', LogResult 2 (Num 3) (Num 5) 6,
      LogThrow ''Your throw'' (Some (Num 3)), LogThrow ''My throw'' (Some (Num 2)),
      Log ''You win!'']"
proof -
  have "fst (start concat_hmac (new_DiceGame [die1, die2, die3]) example_randomness
      [''0'', ''1'', ''4'', ''2'']) =
     [Log ''Let's determine who makes the first move.'', LogCommit (Num 1) ''010231'',
      Prompt ''Try to guess my selection (0 or 1): '', Answer ''0'', InputReceived 0,
      LogReveal (Num 1) ''0102'', Log ''I make the first move!'',
      LogChoice [Num 2, Num 2, Num 4, Num 4, Num 9, Num 9], Log ''Choose your dice:'',
      LogDie 0 [Num 1, Num 1, Num 6, Num 6, Num 8, Num 8],
      LogDie 1 [Num 7, Num 5, Num 3, Num 7, Num 5, Num 3],
      Prompt ''Your selection: '', Answer ''1'', InputReceived 1, Log ''Let's roll!'',
      LogCommit (Num 5) ''0333'', Prompt ''Add your number modulo 6: '', Answer ''4'',
      InputReceived 4, LogReveal (Num 3) ''03'', LogResult 4 (Num 3) (Num 1) 6,
      LogCommit (Num 5) ''0433'', Prompt ''Add your number modulo 6: '', Answer ''2'',
      InputReceived 2, LogReveal (Num 3) ''04'', LogResult 2 (Num 3) (Num 5) 6,
      LogThrow ''Your throw'' (Some (Num 3)), LogThrow ''My throw'' (Some (Num 2)),
      Log ''You win!'']"
    by code_simp
  with reveal_only_after_input [of concat_hmac "new_DiceGame [die1, die2, die3]"
      example_randomness "[''0'', ''1'', ''4'', ''2'']"]
  show ?thesis by blast
qed

section \<open>The dice parsers\<close>

lemma parse_values_length:
  "parse_values index vs = Inr r \<Longrightarrow> length r = length vs"
  by (induction vs arbitrary: r) (auto split: if_splits sum.splits)

lemma parse_values_NaN:
  "parse_values index vs = Inr r \<Longrightarrow> v \<in> set vs \<Longrightarrow> \<not> isNaN_str v"
  by (induction vs arbitrary: r) (auto split: if_splits sum.splits)

lemma parse_arg_rejects:
  assumes "length (split_comma arg) \<noteq> 6 \<or> (\<exists>v\<in>set (split_comma arg). isNaN_str v)"
  shows "isl (parse_arg index arg)"
proof (cases "parse_values index (split_comma arg)")
  case (Inl e)
  then show ?thesis by (simp add: parse_arg_def)
next
  case (Inr r)
  from parse_values_length [OF Inr] parse_values_NaN [OF Inr] assms
  have "length r \<noteq> 6" by auto
  with Inr show ?thesis by (simp add: parse_arg_def)
qed

lemma parse_args_rejects:
  assumes "\<exists>arg\<in>set args. length (split_comma arg) \<noteq> 6 \<or> (\<exists>v\<in>set (split_comma arg). isNaN_str v)"
  shows "isl (parse_args index args)"
  using assms
proof (induction args arbitrary: index)
  case Nil
  then show ?case by simp
next
  case (Cons arg args)
  show ?case
  proof (cases "length (split_comma arg) \<noteq> 6 \<or> (\<exists>v\<in>set (split_comma arg). isNaN_str v)")
    case True
    then have "isl (parse_arg index arg)" by (rule parse_arg_rejects)
    then show ?thesis by (auto split: sum.splits)
  next
    case False
    with Cons.prems have "isl (parse_args (index + 1) args)"
      by (intro Cons.IH) auto
    then show ?thesis by (auto split: sum.splits)
  qed
qed

lemma push_dice_rejects:
  assumes "\<exists>arg\<in>set args. length (split_comma arg) \<noteq> 6 \<or>
             (\<exists>v\<in>set (split_comma arg). \<not> isInteger (Number_str v))"
  shows "isl (push_dice args)"
  using assms
proof (induction args)
  case Nil
  then show ?case by simp
next
  case (Cons arg args)
  show ?case
  proof (cases "length (split_comma arg) \<noteq> 6 \<or> (\<exists>v\<in>set (split_comma arg). \<not> isInteger (Number_str v))")
    case True
    then have "isl (new_Dice (map Number_str (split_comma arg)))"
      by (auto simp: new_Dice_def list_all_iff)
    then show ?thesis by (auto split: sum.splits)
  next
    case False
    with Cons.prems have "isl (push_dice args)"
      by (intro Cons.IH) auto
    then show ?thesis by (auto split: sum.splits)
  qed
qed

text \<open>
  What both parsers do reject: fewer than three arguments, a die that does not have
  exactly six tokens, and a token that \<^verbatim>\<open>Number\<close> does not read as a number (for the
  second program: that it does not read as an integer).
\<close>

lemma parsers_reject:
  "(length args < 3 \<longrightarrow> parseDice args = Inl TooFewDice \<and> isl (new_DiceConfiguration args)) \<and>
   ((\<exists>arg\<in>set args. length (split_comma arg) \<noteq> 6) \<longrightarrow>
      isl (parseDice args) \<and> isl (new_DiceConfiguration args)) \<and>
   ((\<exists>arg\<in>set args. \<exists>v\<in>set (split_comma arg). isNaN_str v) \<longrightarrow> isl (parseDice args)) \<and>
   ((\<exists>arg\<in>set args. \<exists>v\<in>set (split_comma arg). \<not> isInteger (Number_str v)) \<longrightarrow>
      isl (new_DiceConfiguration args))"
proof -
  have A: "isl (parseDice args)"
    if "arg \<in> set args"
      and "length (split_comma arg) \<noteq> 6 \<or> (\<exists>v\<in>set (split_comma arg). isNaN_str v)" for arg
  proof -
    from that have "\<exists>arg\<in>set args. length (split_comma arg) \<noteq> 6 \<or>
        (\<exists>v\<in>set (split_comma arg). isNaN_str v)" by blast
    from parse_args_rejects [OF this, of 0] show ?thesis by (simp add: parseDice_def)
  qed
  have B: "isl (new_DiceConfiguration args)"
    if "arg \<in> set args"
      and "length (split_comma arg) \<noteq> 6 \<or>
           (\<exists>v\<in>set (split_comma arg). \<not> isInteger (Number_str v))" for arg
  proof -
    from that have "\<exists>arg\<in>set args. length (split_comma arg) \<noteq> 6 \<or>
        (\<exists>v\<in>set (split_comma arg). \<not> isInteger (Number_str v))" by blast
    from push_dice_rejects [OF this] show ?thesis
      by (simp add: new_DiceConfiguration_def parseArgs_def)
  qed
  have C: "parseDice args = Inl TooFewDice \<and> isl (new_DiceConfiguration args)"
    if "length args < 3"
    using that by (simp add: parseDice_def new_DiceConfiguration_def parseArgs_def)
  from A B C show ?thesis by blast
qed

text \<open>
  C9. Both parsers accept an argument list whose first die ends in an empty token,
  which is not an integer: \<^verbatim>\<open>isNaN('')\<close> is false and \<^verbatim>\<open>Number('')\<close> is \<open>0\<close>. game.js
  builds a die with the face \<^verbatim>\<open>NaN\<close>, the second program one with the face \<open>0\<close>. game.js
  also accepts the token \<^verbatim>\<open>1.5\<close> and reads it as \<open>1\<close>. Three dice of six integers are
  accepted, and the die \<^verbatim>\<open>2,2,4,4,9\<close> of five values is rejected.
\<close>

theorem parsers_accept_non_integer_token:
  "parseDice [''1,2,3,4,5,'', ''1,2,3,4,5,6'', ''1,2,3,4,5,6''] =
     Inr [[Num 1, Num 2, Num 3, Num 4, Num 5, NaN],
          [Num 1, Num 2, Num 3, Num 4, Num 5, Num 6],
          [Num 1, Num 2, Num 3, Num 4, Num 5, Num 6]] \<and>
   new_DiceConfiguration [''1,2,3,4,5,'', ''1,2,3,4,5,6'', ''1,2,3,4,5,6''] =
     Inr [[Num 1, Num 2, Num 3, Num 4, Num 5, Num 0],
          [Num 1, Num 2, Num 3, Num 4, Num 5, Num 6],
          [Num 1, Num 2, Num 3, Num 4, Num 5, Num 6]] \<and>
   parseDice [''1.5,2,3,4,5,6'', ''1,2,3,4,5,6'', ''1,2,3,4,5,6''] =
     Inr [[Num 1, Num 2, Num 3, Num 4, Num 5, Num 6],
          [Num 1, Num 2, Num 3, Num 4, Num 5, Num 6],
          [Num 1, Num 2, Num 3, Num 4, Num 5, Num 6]] \<and>
   parseDice [''2,2,4,4,9,9'', ''1,1,6,6,8,8'', ''7,5,3,7,5,3''] = Inr [die1, die2, die3] \<and>
   new_DiceConfiguration [''2,2,4,4,9,9'', ''1,1,6,6,8,8'', ''7,5,3,7,5,3''] = Inr [die1, die2, die3] \<and>
   parseDice [''2,2,4,4,9'', ''1,1,6,6,8,8'', ''7,5,3,7,5,3''] = Inl (NotSixValues 1) \<and>
   new_DiceConfiguration [''2,2,4,4,9'', ''1,1,6,6,8,8'', ''7,5,3,7,5,3''] =
     Inl (Error ''Each dice must have 6 integer values.'')"
  by code_simp

end
